theory Spec2Isabelle
  imports Main "HOL-Library.Multiset" "HOL-Library.Sublist" "HOL-Library.AList"
begin

section \<open>Go library functions used by the project indexer\<close>

text \<open>
  Go strings are byte sequences; \<^typ>\<open>string\<close> is a list of 8-bit characters, so
  \<^const>\<open>length\<close> is Go's \<^verbatim>\<open>len\<close>.
\<close>

definition strings_HasPrefix :: "string \<Rightarrow> string \<Rightarrow> bool" where
  "strings_HasPrefix s pre = prefix pre s"

definition strings_HasSuffix :: "string \<Rightarrow> string \<Rightarrow> bool" where
  "strings_HasSuffix s suf = suffix suf s"

text \<open>
  \<^verbatim>\<open>strings.Split(s, "/")\<close> for a one-byte separator: the pieces between the
  separators, empty pieces included; a string without separator (the empty string too)
  gives the one-element list of itself.
\<close>

fun strings_Split :: "string \<Rightarrow> char \<Rightarrow> string list" where
  "strings_Split [] sep = [[]]"
| "strings_Split (c # cs) sep =
     (if c = sep then [] # strings_Split cs sep
      else (case strings_Split cs sep of
              [] \<Rightarrow> [[c]]
            | part # parts \<Rightarrow> (c # part) # parts))"

text \<open>
  \<^verbatim>\<open>filepath.Base\<close> on a Unix system (separator \<^verbatim>\<open>/\<close>, no volume name): the
  empty path gives \<^verbatim>\<open>.\<close>; trailing separators are stripped; what follows the last
  remaining separator is returned; a path of separators only gives one separator.
\<close>

definition stripTrailingSeparators :: "string \<Rightarrow> string" where
  "stripTrailingSeparators path = rev (dropWhile (\<lambda>c. c = CHR ''/'') (rev path))"

definition lastElement :: "string \<Rightarrow> string" where
  "lastElement path = rev (takeWhile (\<lambda>c. c \<noteq> CHR ''/'') (rev path))"

definition filepath_Base :: "string \<Rightarrow> string" where
  "filepath_Base path =
     (if path = [] then ''.''
      else let path' = lastElement (stripTrailingSeparators path)
           in if path' = [] then ''/'' else path')"

text \<open>
  \<^verbatim>\<open>filepath.Join(dir, name)\<close> for a clean directory path and a directory-entry
  name, the only way the indexer's results use it: the two joined by one separator.
\<close>

definition filepath_Join :: "string \<Rightarrow> string \<Rightarrow> string" where
  "filepath_Join dir name = dir @ ''/'' @ name"

subsection \<open>sort.Slice\<close>

text \<open>
  Every call of \<^verbatim>\<open>sort.Slice\<close> in the indexer has a comparison of the form
  \<^verbatim>\<open>key(x[i]) > key(x[j])\<close> for an integer key (a length or a time). The library
  promises a sorted rearrangement and no more: the sort is not stable, and where keys are
  equal the order is whatever the algorithm leaves. The algorithm sees the slice only through
  the comparison, so the rearrangement it makes is a function of the list of keys. That
  function is a parameter of the model: a \<open>sorter\<close> maps the keys to the list of old
  positions in their new order.
\<close>

type_synonym sorter = "int list \<Rightarrow> nat list"

definition sort_Slice :: "sorter \<Rightarrow> ('a \<Rightarrow> int) \<Rightarrow> 'a list \<Rightarrow> 'a list" where
  "sort_Slice srt key xs = map ((!) xs) (srt (map key xs))"

text \<open>
  What the library guarantees of a sorter: it rearranges the positions, and the keys are
  non-increasing along the new order.
\<close>

definition sorter_ok :: "sorter \<Rightarrow> bool" where
  "sorter_ok srt \<longleftrightarrow>
     (\<forall>ks. mset (srt ks) = mset [0..<length ks] \<and>
           sorted_wrt (\<lambda>i j. ks ! j \<le> ks ! i) (srt ks))"

text \<open>One sorter that the guarantee admits: the stable insertion sort.\<close>

definition stable_sorter :: sorter where
  "stable_sorter ks = sort_key (\<lambda>i. - (ks ! i)) [0..<length ks]"

section \<open>Data model\<close>

text \<open>
  A \<^verbatim>\<open>time.Time\<close> is compared by \<^verbatim>\<open>After\<close> only, which compares instants: a
  time is modelled by its instant, an integer, and \<^verbatim>\<open>a.After(b)\<close> is \<open>b < a\<close>.
  Go's \<^verbatim>\<open>int\<close> counts directory entries and list lengths here, far below its
  64-bit range, and is modelled by \<^typ>\<open>int\<close>.
\<close>

type_synonym time = int

record SessionEntry =
  SessionID :: string
  FullPath :: string
  FileMtime :: int
  FirstPrompt :: string
  Summary :: string
  MessageCount :: int
  Created :: time
  Modified :: time
  GitBranch :: string
  ProjectPath :: string
  IsSidechain :: bool

record sessionsIndex =
  Version :: int
  Entries :: "SessionEntry list"

record Project =
  Path :: string
  Name :: string
  Shortname :: string
  Org :: string
  DirName :: string
  Sessions :: "SessionEntry list"
  SessionCount :: int
  LastModified :: time

record ProjectIndexer =
  projectsDir :: string
  tasksDir :: string

record ActiveTaskList =
  SessionID :: string
  TaskCount :: int
  TaskDir :: string
  ProjectName :: string
  ProjectPath :: string
  Summary :: string
  FirstPrompt :: string

text \<open>
  The fields of \<^verbatim>\<open>projectInfo\<close> are \<^verbatim>\<open>name\<close>, \<^verbatim>\<open>path\<close>, \<^verbatim>\<open>summary\<close> and
  \<^verbatim>\<open>firstPrompt\<close> in the source; they carry a prefix here, which keeps these words free
  for variables.
\<close>

record projectInfo =
  info_name :: string
  info_path :: string
  info_summary :: string
  info_firstPrompt :: string

record ProjectSummary =
  Name :: string
  Path :: string
  DirName :: string
  Shortname :: string
  Org :: string
  BaseRepo :: string
  SessionCount :: int
  LastModified :: time
  LastBranch :: string
  LastSummary :: string

record ProjectGroup =
  BaseRepo :: string
  Org :: string
  Projects :: "ProjectSummary list"
  TotalSessions :: int
  LastModified :: time

text \<open>
  Several structs share field names; a field is written with its struct, as in
  \<open>Project.Name\<close>, wherever the name alone would not say which is meant.
\<close>

subsection \<open>Errors\<close>

text \<open>
  \<open>ErrNotExist\<close> is the value \<^verbatim>\<open>os.ErrNotExist\<close>; \<open>PathError\<close> is what a failed
  \<^verbatim>\<open>os.ReadDir\<close> or \<^verbatim>\<open>os.ReadFile\<close> returns, with the system's error number;
  \<open>UnmarshalError\<close> is any error of \<^verbatim>\<open>json.Unmarshal\<close>;
  \<open>IndexOutOfRange\<close> is the run-time panic of an index expression.
\<close>

datatype errno = ENOENT | EACCES | ENOTDIR | EIO

datatype error = ErrNotExist | PathError errno | UnmarshalError | IndexOutOfRange

text \<open>\<^verbatim>\<open>errors.Is(err, os.ErrNotExist)\<close>\<close>

fun isNotExist :: "error \<Rightarrow> bool" where
  "isNotExist ErrNotExist = True"
| "isNotExist (PathError e) = (e = ENOENT)"
| "isNotExist UnmarshalError = False"
| "isNotExist IndexOutOfRange = False"

subsection \<open>The file system the indexer reads\<close>

text \<open>
  The indexer only reads. One observation of the file system is a record of what each of its
  reads returns: the two directory listings, the listing of a session's task directory, the
  outcome of reading and decoding a project's \<^verbatim>\<open>sessions-index.json\<close>, and whether
  \<^verbatim>\<open>os.Stat\<close> finds a file of a given name in a project directory.
\<close>

datatype DirEntry = DirEntry (entry_Name: string) (entry_IsDir: bool)

datatype indexFile =
    ReadFileFails error
  | UnmarshalFails error
  | Decoded sessionsIndex

record FileSystem =
  readDirProjects :: "error + DirEntry list"
  readIndexFile :: "string \<Rightarrow> indexFile"
  statInProject :: "string \<Rightarrow> string \<Rightarrow> bool"
  readDirTasks :: "error + DirEntry list"
  readDirTaskDir :: "string \<Rightarrow> error + DirEntry list"

section \<open>Loading projects\<close>

fun findOrg :: "string list \<Rightarrow> string" where
  "findOrg [] = ''''"
| "findOrg [part] = ''''"
| "findOrg (part # nxt # parts) =
     (if part = ''github.com'' then nxt else findOrg (nxt # parts))"

definition extractProjectInfo :: "string \<Rightarrow> string \<times> string \<times> string" where
  "extractProjectInfo path =
     (let name = filepath_Base path
      in if name = '''' \<or> name = ''.'' then ('''', '''', '''')
         else (name, name, findOrg (strings_Split path (CHR ''/''))))"

text \<open>
  \<open>loadProject\<close>. The entries are sorted in place and element 0 is read afterwards; the
  list is not empty there, since the empty index has returned before. The model keeps the
  index expression's panic as a branch, which a sorter within the library's guarantee never
  takes.
\<close>

definition loadProject :: "sorter \<Rightarrow> FileSystem \<Rightarrow> string \<Rightarrow> error + Project" where
  "loadProject srt fs dirName =
     (case readIndexFile fs dirName of
        ReadFileFails err \<Rightarrow> Inl err
      | UnmarshalFails err \<Rightarrow> Inl err
      | Decoded idx \<Rightarrow>
          if length (Entries idx) = 0 then Inl ErrNotExist
          else
            (case sort_Slice srt Modified (Entries idx) of
               [] \<Rightarrow> Inl IndexOutOfRange
             | first # others \<Rightarrow>
                 (let entries = first # others;
                      projectPath = SessionEntry.ProjectPath first;
                      (name, shortname, org) = extractProjectInfo projectPath;
                      name = (if name = '''' then dirName else name);
                      lastModified = Modified first
                  in Inr \<lparr> Project.Path = projectPath,
                           Project.Name = name,
                           Project.Shortname = shortname,
                           Project.Org = org,
                           Project.DirName = dirName,
                           Sessions = entries,
                           Project.SessionCount = int (length entries),
                           Project.LastModified = lastModified \<rparr>)))"

definition GetProject :: "sorter \<Rightarrow> FileSystem \<Rightarrow> string \<Rightarrow> error + Project" where
  "GetProject srt fs dirName = loadProject srt fs dirName"

fun loadProjects :: "sorter \<Rightarrow> FileSystem \<Rightarrow> DirEntry list \<Rightarrow> Project list \<Rightarrow> Project list" where
  "loadProjects srt fs [] projects = projects"
| "loadProjects srt fs (entry # entries) projects =
     (if \<not> entry_IsDir entry then loadProjects srt fs entries projects
      else (case loadProject srt fs (entry_Name entry) of
              Inl err \<Rightarrow> loadProjects srt fs entries projects
            | Inr project \<Rightarrow> loadProjects srt fs entries (projects @ [project])))"

definition ListProjects :: "sorter \<Rightarrow> FileSystem \<Rightarrow> error + Project list" where
  "ListProjects srt fs =
     (case readDirProjects fs of
        Inl err \<Rightarrow> Inl err
      | Inr entries \<Rightarrow> Inr (sort_Slice srt Project.LastModified (loadProjects srt fs entries [])))"

text \<open>
  A project whose sessions are in order of recency: there is a session, the sessions'
  modification times never increase along the list, and the project's \<open>Project.LastModified\<close> is
  the greatest of them, which is the first.
\<close>

definition sessionsNewestFirst :: "Project \<Rightarrow> bool" where
  "sessionsNewestFirst project \<longleftrightarrow>
     Sessions project \<noteq> [] \<and>
     sorted_wrt (\<lambda>a b. Modified b \<le> Modified a) (Sessions project) \<and>
     Project.LastModified project = Max (Modified ` set (Sessions project)) \<and>
     Project.LastModified project = Modified (Sessions project ! 0)"

section \<open>Task files of a session\<close>

fun hasTaskFile :: "DirEntry list \<Rightarrow> bool" where
  "hasTaskFile [] = False"
| "hasTaskFile (e # es) =
     (if strings_HasSuffix (entry_Name e) ''.json'' then True else hasTaskFile es)"

definition HasTasks :: "FileSystem \<Rightarrow> string \<Rightarrow> bool" where
  "HasTasks fs sessionID =
     (case readDirTaskDir fs sessionID of
        Inl err \<Rightarrow> False
      | Inr entries \<Rightarrow> hasTaskFile entries)"

fun countTaskFiles :: "DirEntry list \<Rightarrow> int \<Rightarrow> int" where
  "countTaskFiles [] cnt = cnt"
| "countTaskFiles (e # es) cnt =
     countTaskFiles es
       (if strings_HasSuffix (entry_Name e) ''.json'' then cnt + 1 else cnt)"

definition GetTaskCount :: "FileSystem \<Rightarrow> string \<Rightarrow> int" where
  "GetTaskCount fs sessionID =
     (case readDirTaskDir fs sessionID of
        Inl err \<Rightarrow> 0
      | Inr entries \<Rightarrow> countTaskFiles entries 0)"

section \<open>Base repositories\<close>

text \<open>
  \<open>ListProjectSummaries\<close> builds one summary per project, with the branch and summary
  of the first session when there is one, and hands the list to \<open>computeBaseRepos\<close>.
\<close>

definition summarize :: "Project \<Rightarrow> ProjectSummary" where
  "summarize p =
     (let summary = \<lparr> ProjectSummary.Name = Project.Name p,
                       ProjectSummary.Path = Project.Path p,
                       ProjectSummary.DirName = Project.DirName p,
                       ProjectSummary.Shortname = Project.Shortname p,
                       ProjectSummary.Org = Project.Org p,
                       ProjectSummary.BaseRepo = '''',
                       ProjectSummary.SessionCount = Project.SessionCount p,
                       ProjectSummary.LastModified = Project.LastModified p,
                       LastBranch = '''',
                       LastSummary = '''' \<rparr>
      in if length (Sessions p) > 0
         then summary \<lparr> LastBranch := GitBranch (Sessions p ! 0),
                         LastSummary := SessionEntry.Summary (Sessions p ! 0) \<rparr>
         else summary)"

text \<open>
  \<open>orgRepos\<close> is a \<^verbatim>\<open>map[string][]string\<close>; reading a key that is absent gives the
  nil slice, to which the first loop appends.
\<close>

definition lookupRepos :: "(string \<rightharpoonup> string list) \<Rightarrow> string \<Rightarrow> string list" where
  "lookupRepos orgRepos org = (case orgRepos org of None \<Rightarrow> [] | Some repos \<Rightarrow> repos)"

fun collectOrgRepos ::
  "ProjectSummary list \<Rightarrow> (string \<rightharpoonup> string list) \<Rightarrow> (string \<rightharpoonup> string list)" where
  "collectOrgRepos [] orgRepos = orgRepos"
| "collectOrgRepos (s # summaries) orgRepos =
     collectOrgRepos summaries
       (if ProjectSummary.Org s \<noteq> ''''
        then orgRepos(ProjectSummary.Org s \<mapsto>
               lookupRepos orgRepos (ProjectSummary.Org s) @ [ProjectSummary.Name s])
        else orgRepos)"

text \<open>The second loop sorts every organization's list by length, longest first.\<close>

definition sortOrgRepos :: "sorter \<Rightarrow> (string \<rightharpoonup> string list) \<Rightarrow> (string \<rightharpoonup> string list)" where
  "sortOrgRepos srt orgRepos =
     (\<lambda>org. map_option (sort_Slice srt (\<lambda>repo. int (length repo))) (orgRepos org))"

text \<open>
  The inner loop of the third: the default is the project's own name; a candidate equal to
  the name is skipped; the first candidate that, followed by a dash, starts the name is taken
  and ends the loop.
\<close>

fun findBaseRepo :: "string \<Rightarrow> string list \<Rightarrow> string" where
  "findBaseRepo name [] = name"
| "findBaseRepo name (candidate # repos) =
     (if candidate = name then findBaseRepo name repos
      else if strings_HasPrefix name (candidate @ ''-'') then candidate
      else findBaseRepo name repos)"

definition assignBaseRepo :: "(string \<rightharpoonup> string list) \<Rightarrow> ProjectSummary \<Rightarrow> ProjectSummary" where
  "assignBaseRepo orgRepos s =
     (if ProjectSummary.Org s = ''''
      then s \<lparr> ProjectSummary.BaseRepo := ProjectSummary.Name s \<rparr>
      else s \<lparr> ProjectSummary.BaseRepo :=
                 findBaseRepo (ProjectSummary.Name s) (lookupRepos orgRepos (ProjectSummary.Org s)) \<rparr>)"

definition computeBaseRepos :: "sorter \<Rightarrow> ProjectSummary list \<Rightarrow> ProjectSummary list" where
  "computeBaseRepos srt summaries =
     (let orgRepos = sortOrgRepos srt (collectOrgRepos summaries Map.empty)
      in map (assignBaseRepo orgRepos) summaries)"

definition ListProjectSummaries :: "sorter \<Rightarrow> FileSystem \<Rightarrow> error + ProjectSummary list" where
  "ListProjectSummaries srt fs =
     (case ListProjects srt fs of
        Inl err \<Rightarrow> Inl err
      | Inr projects \<Rightarrow> Inr (computeBaseRepos srt (map summarize projects)))"

subsection \<open>The scan, with the specification's condition and with the code's\<close>

text \<open>
  The scan over the candidates, with the matching condition left open: the first candidate
  other than the project's own name that matches, and the own name when there is none.
\<close>

definition firstCandidate :: "(string \<Rightarrow> string \<Rightarrow> bool) \<Rightarrow> string list \<Rightarrow> string \<Rightarrow> string" where
  "firstCandidate matches candidates name =
     (case find (matches name) (filter (\<lambda>c. c \<noteq> name) candidates) of
        Some c \<Rightarrow> c
      | None \<Rightarrow> name)"

text \<open>
  The specification's matching condition: the project's name is the candidate, a dash, and
  a suffix that is not empty.
\<close>

definition spec_matches :: "string \<Rightarrow> string \<Rightarrow> bool" where
  "spec_matches name candidate \<longleftrightarrow>
     prefix (candidate @ ''-'') name \<and> length candidate + 1 < length name"

text \<open>The condition of the code: the candidate and a dash start the name.\<close>

definition prefix_matches :: "string \<Rightarrow> string \<Rightarrow> bool" where
  "prefix_matches name candidate \<longleftrightarrow> prefix (candidate @ ''-'') name"

subsection \<open>The organization's candidates\<close>

text \<open>
  The names of the summaries of one organization, in the order of the list, and the same
  names as \<open>computeBaseRepos\<close> scans them.
\<close>

definition orgNames :: "ProjectSummary list \<Rightarrow> string \<Rightarrow> string list" where
  "orgNames summaries org =
     map ProjectSummary.Name (filter (\<lambda>t. ProjectSummary.Org t = org) summaries)"

definition orgCandidates :: "sorter \<Rightarrow> ProjectSummary list \<Rightarrow> string \<Rightarrow> string list" where
  "orgCandidates srt summaries org =
     sort_Slice srt (\<lambda>repo. int (length repo)) (orgNames summaries org)"

text \<open>
  The names of a summary's organization that, followed by a dash, start the summary's name.
\<close>

definition matchingSiblings :: "ProjectSummary list \<Rightarrow> ProjectSummary \<Rightarrow> string set" where
  "matchingSiblings summaries s =
     {c \<in> set (orgNames summaries (ProjectSummary.Org s)).
        prefix (c @ ''-'') (ProjectSummary.Name s)}"

section \<open>Active task lists\<close>

text \<open>
  \<open>extractProjectName\<close>: the last part of the directory name, split at dashes, that is
  not empty; the directory name itself when every part is empty. The loop runs from the last
  part to the first.
\<close>

fun lastNonEmptyPart :: "string list \<Rightarrow> string \<Rightarrow> string" where
  "lastNonEmptyPart [] dirName = dirName"
| "lastNonEmptyPart (part # parts) dirName =
     (if part \<noteq> '''' then part else lastNonEmptyPart parts dirName)"

definition extractProjectName :: "string \<Rightarrow> string" where
  "extractProjectName dirName =
     lastNonEmptyPart (rev (strings_Split dirName (CHR ''-''))) dirName"

text \<open>
  \<open>buildSessionProjectMap\<close>: the inner loop stores every entry of one index under its
  session identifier, a later entry replacing an earlier one; the outer loop skips what is
  not a directory and every index that cannot be read or decoded. A directory listing that
  fails leaves the map empty.
\<close>

fun addIndexEntries ::
  "string \<Rightarrow> string \<Rightarrow> SessionEntry list \<Rightarrow> (string \<rightharpoonup> projectInfo) \<Rightarrow> (string \<rightharpoonup> projectInfo)" where
  "addIndexEntries projectName dirName [] result = result"
| "addIndexEntries projectName dirName (entry # entries) result =
     addIndexEntries projectName dirName entries
       (result(SessionEntry.SessionID entry \<mapsto>
          \<lparr> info_name = projectName,
            info_path = dirName,
            info_summary = SessionEntry.Summary entry,
            info_firstPrompt = SessionEntry.FirstPrompt entry \<rparr>))"

fun scanProjectDirs ::
  "FileSystem \<Rightarrow> DirEntry list \<Rightarrow> (string \<rightharpoonup> projectInfo) \<Rightarrow> (string \<rightharpoonup> projectInfo)" where
  "scanProjectDirs fs [] result = result"
| "scanProjectDirs fs (dir # projectDirs) result =
     (if \<not> entry_IsDir dir then scanProjectDirs fs projectDirs result
      else (case readIndexFile fs (entry_Name dir) of
              ReadFileFails err \<Rightarrow> scanProjectDirs fs projectDirs result
            | UnmarshalFails err \<Rightarrow> scanProjectDirs fs projectDirs result
            | Decoded index \<Rightarrow>
                scanProjectDirs fs projectDirs
                  (addIndexEntries (extractProjectName (entry_Name dir)) (entry_Name dir)
                     (Entries index) result)))"

definition buildSessionProjectMap :: "FileSystem \<Rightarrow> (string \<rightharpoonup> projectInfo)" where
  "buildSessionProjectMap fs =
     (case readDirProjects fs of
        Inl err \<Rightarrow> Map.empty
      | Inr projectDirs \<Rightarrow> scanProjectDirs fs projectDirs Map.empty)"

text \<open>
  \<open>findProjectByJSONL\<close> returns a \<^verbatim>\<open>projectInfo\<close> and a flag; the pair is an option
  here. The first project directory in which \<^verbatim>\<open>os.Stat\<close> finds the session's log file
  gives the result, with summary and first prompt left at their zero value.
\<close>

fun probeProjectDirs :: "FileSystem \<Rightarrow> string \<Rightarrow> DirEntry list \<Rightarrow> projectInfo option" where
  "probeProjectDirs fs jsonlName [] = None"
| "probeProjectDirs fs jsonlName (dir # projectDirs) =
     (if \<not> entry_IsDir dir then probeProjectDirs fs jsonlName projectDirs
      else if statInProject fs (entry_Name dir) jsonlName
      then Some \<lparr> info_name = extractProjectName (entry_Name dir),
                  info_path = entry_Name dir,
                  info_summary = '''',
                  info_firstPrompt = '''' \<rparr>
      else probeProjectDirs fs jsonlName projectDirs)"

definition findProjectByJSONL :: "FileSystem \<Rightarrow> string \<Rightarrow> projectInfo option" where
  "findProjectByJSONL fs sessionID =
     (case readDirProjects fs of
        Inl err \<Rightarrow> None
      | Inr projectDirs \<Rightarrow> probeProjectDirs fs (sessionID @ ''.jsonl'') projectDirs)"

text \<open>
  The body of the loop of \<open>ListActiveTaskLists\<close> for a session with tasks: the entry
  with the session, its count and its directory, and the project context from the map or,
  failing that, from the probe for the log file; with neither, the context keeps its zero
  values.
\<close>

definition withProject :: "ActiveTaskList \<Rightarrow> projectInfo \<Rightarrow> ActiveTaskList" where
  "withProject active proj =
     active \<lparr> ProjectName := info_name proj,
              ActiveTaskList.ProjectPath := info_path proj,
              ActiveTaskList.Summary := info_summary proj,
              ActiveTaskList.FirstPrompt := info_firstPrompt proj \<rparr>"

definition activeTaskList ::
  "ProjectIndexer \<Rightarrow> FileSystem \<Rightarrow> (string \<rightharpoonup> projectInfo) \<Rightarrow> string \<Rightarrow> int \<Rightarrow> ActiveTaskList" where
  "activeTaskList indexer fs sessionToProject sessionID taskCount =
     (let active = \<lparr> ActiveTaskList.SessionID = sessionID,
                      TaskCount = taskCount,
                      TaskDir = filepath_Join (tasksDir indexer) sessionID,
                      ProjectName = '''',
                      ActiveTaskList.ProjectPath = '''',
                      ActiveTaskList.Summary = '''',
                      ActiveTaskList.FirstPrompt = '''' \<rparr>
      in case sessionToProject sessionID of
           Some proj \<Rightarrow> withProject active proj
         | None \<Rightarrow>
             (case findProjectByJSONL fs sessionID of
                Some proj \<Rightarrow> withProject active proj
              | None \<Rightarrow> active))"

fun collectActiveLists ::
  "ProjectIndexer \<Rightarrow> FileSystem \<Rightarrow> (string \<rightharpoonup> projectInfo) \<Rightarrow> DirEntry list \<Rightarrow>
     ActiveTaskList list \<Rightarrow> ActiveTaskList list" where
  "collectActiveLists indexer fs sessionToProject [] activeLists = activeLists"
| "collectActiveLists indexer fs sessionToProject (entry # entries) activeLists =
     (if \<not> entry_IsDir entry
      then collectActiveLists indexer fs sessionToProject entries activeLists
      else (let sessionID = entry_Name entry;
                taskCount = GetTaskCount fs sessionID
            in if taskCount > 0
               then collectActiveLists indexer fs sessionToProject entries
                      (activeLists @
                         [activeTaskList indexer fs sessionToProject sessionID taskCount])
               else collectActiveLists indexer fs sessionToProject entries activeLists))"

definition ListActiveTaskLists :: "ProjectIndexer \<Rightarrow> FileSystem \<Rightarrow> error + ActiveTaskList list" where
  "ListActiveTaskLists indexer fs =
     (case readDirTasks fs of
        Inl err \<Rightarrow> Inl err
      | Inr entries \<Rightarrow>
          Inr (collectActiveLists indexer fs (buildSessionProjectMap fs) entries []))"

text \<open>
  A session that no project knows: in every listed project directory, no decoded index has
  an entry of the session, and \<^verbatim>\<open>os.Stat\<close> finds no log file of the session.
\<close>

definition inIndexOf :: "FileSystem \<Rightarrow> string \<Rightarrow> string \<Rightarrow> bool" where
  "inIndexOf fs dirName sessionID \<longleftrightarrow>
     (case readIndexFile fs dirName of
        Decoded index \<Rightarrow> sessionID \<in> SessionEntry.SessionID ` set (Entries index)
      | ReadFileFails err \<Rightarrow> False
      | UnmarshalFails err \<Rightarrow> False)"

definition sessionUnknown :: "FileSystem \<Rightarrow> string \<Rightarrow> bool" where
  "sessionUnknown fs sessionID \<longleftrightarrow>
     (case readDirProjects fs of
        Inl err \<Rightarrow> True
      | Inr projectDirs \<Rightarrow>
          (\<forall>dir \<in> set projectDirs. entry_IsDir dir \<longrightarrow>
             \<not> inIndexOf fs (entry_Name dir) sessionID \<and>
             \<not> statInProject fs (entry_Name dir) (sessionID @ ''.jsonl'')))"

text \<open>A session whose task directory can be listed and holds an entry ending in \<^verbatim>\<open>.json\<close>.\<close>

definition sessionHasTaskFile :: "FileSystem \<Rightarrow> string \<Rightarrow> bool" where
  "sessionHasTaskFile fs sessionID \<longleftrightarrow>
     (case readDirTaskDir fs sessionID of
        Inl err \<Rightarrow> False
      | Inr taskFiles \<Rightarrow> (\<exists>f \<in> set taskFiles. suffix ''.json'' (entry_Name f)))"

section \<open>Project groups\<close>

text \<open>
  \<open>groupMap\<close> is a \<^verbatim>\<open>map[string]*ProjectGroup\<close>, modelled by an association list
  with one pair per key, in the order in which the keys were first stored. The loop either
  changes the group found under the key or stores a new group.
\<close>

definition addToGroups :: "(string \<times> ProjectGroup) list \<Rightarrow> ProjectSummary \<Rightarrow> (string \<times> ProjectGroup) list" where
  "addToGroups groupMap s =
     (let key = ProjectSummary.Org s @ ''/'' @ ProjectSummary.BaseRepo s
      in case map_of groupMap key of
           Some g \<Rightarrow>
             AList.update key
               (g \<lparr> Projects := Projects g @ [s],
                    TotalSessions := TotalSessions g + ProjectSummary.SessionCount s,
                    ProjectGroup.LastModified :=
                      (if ProjectGroup.LastModified g < ProjectSummary.LastModified s
                       then ProjectSummary.LastModified s
                       else ProjectGroup.LastModified g) \<rparr>)
               groupMap
         | None \<Rightarrow>
             groupMap @
               [(key, \<lparr> ProjectGroup.BaseRepo = ProjectSummary.BaseRepo s,
                        ProjectGroup.Org = ProjectSummary.Org s,
                        Projects = [s],
                        TotalSessions = ProjectSummary.SessionCount s,
                        ProjectGroup.LastModified = ProjectSummary.LastModified s \<rparr>)])"

text \<open>
  Go visits the keys of a map in an order that it does not specify and that may change from
  run to run. The order is a parameter of the model: for a map of \<open>n\<close> keys, the positions
  of the association list in the order of the visit. All that is known of it is that every
  key is visited once.
\<close>

type_synonym mapOrder = "nat \<Rightarrow> nat list"

definition mapOrder_ok :: "mapOrder \<Rightarrow> bool" where
  "mapOrder_ok ord \<longleftrightarrow> (\<forall>n. mset (ord n) = mset [0..<n])"

definition rangeValues :: "mapOrder \<Rightarrow> ('k \<times> 'v) list \<Rightarrow> 'v list" where
  "rangeValues ord m = map ((!) (map snd m)) (ord (length m))"

text \<open>One order that this admits: the order of insertion.\<close>

definition insertionOrder :: mapOrder where
  "insertionOrder n = [0..<n]"

definition sortGroupProjects :: "sorter \<Rightarrow> ProjectGroup \<Rightarrow> ProjectGroup" where
  "sortGroupProjects srt g =
     g \<lparr> Projects := sort_Slice srt ProjectSummary.LastModified (Projects g) \<rparr>"

definition ListProjectGroups :: "sorter \<Rightarrow> mapOrder \<Rightarrow> FileSystem \<Rightarrow> error + ProjectGroup list" where
  "ListProjectGroups srt ord fs =
     (case ListProjectSummaries srt fs of
        Inl err \<Rightarrow> Inl err
      | Inr summaries \<Rightarrow>
          (let groupMap = foldl addToGroups [] summaries;
               groups = map (sortGroupProjects srt) (rangeValues ord groupMap)
           in Inr (sort_Slice srt ProjectGroup.LastModified groups)))"

text \<open>
  A group that is consistent: it has a member; every member has the group's organization
  and base repository; the total is the sum of the members' session counts; the group's
  \<open>LastModified\<close> is the greatest of the members'; the members are sorted non-increasing
  by \<open>LastModified\<close>.
\<close>

definition groupConsistent :: "ProjectGroup \<Rightarrow> bool" where
  "groupConsistent g \<longleftrightarrow>
     Projects g \<noteq> [] \<and>
     (\<forall>s \<in> set (Projects g).
        ProjectSummary.Org s = ProjectGroup.Org g \<and>
        ProjectSummary.BaseRepo s = ProjectGroup.BaseRepo g) \<and>
     TotalSessions g = sum_list (map ProjectSummary.SessionCount (Projects g)) \<and>
     ProjectGroup.LastModified g = Max (ProjectSummary.LastModified ` set (Projects g)) \<and>
     sorted_wrt (\<lambda>a b. ProjectSummary.LastModified b \<le> ProjectSummary.LastModified a)
       (Projects g)"

text \<open>
  What the grouping loop keeps true of every key and its group: the group has a member;
  every member has the key; the group's organization and base repository are those of its
  first member; the total and the latest modification are those of the members. And of the
  whole map: no key twice.
\<close>

definition summaryKey :: "ProjectSummary \<Rightarrow> string" where
  "summaryKey s = ProjectSummary.Org s @ ''/'' @ ProjectSummary.BaseRepo s"

definition groupSound :: "string \<Rightarrow> ProjectGroup \<Rightarrow> bool" where
  "groupSound key g \<longleftrightarrow>
     Projects g \<noteq> [] \<and>
     (\<forall>s \<in> set (Projects g). summaryKey s = key) \<and>
     ProjectGroup.Org g = ProjectSummary.Org (hd (Projects g)) \<and>
     ProjectGroup.BaseRepo g = ProjectSummary.BaseRepo (hd (Projects g)) \<and>
     TotalSessions g = sum_list (map ProjectSummary.SessionCount (Projects g)) \<and>
     ProjectGroup.LastModified g = Max (ProjectSummary.LastModified ` set (Projects g))"

definition groupMapSound :: "(string \<times> ProjectGroup) list \<Rightarrow> bool" where
  "groupMapSound groupMap \<longleftrightarrow>
     distinct (map fst groupMap) \<and> (\<forall>(key, g) \<in> set groupMap. groupSound key g)"

definition memberCount :: "(string \<times> ProjectGroup) list \<Rightarrow> ProjectSummary multiset" where
  "memberCount groupMap = mset (concat (map (Projects \<circ> snd) groupMap))"

section \<open>An example file system\<close>

text \<open>
  Four project directories and a plain file: one project under \<^verbatim>\<open>github.com\<close> with
  two sessions, a worktree of it, one whose index decodes to no entries, one outside
  \<^verbatim>\<open>github.com\<close>.
  Five entries in the tasks directory: session \<open>b\<close> is in an index, \<open>w\<close> has only its
  log file in a project directory, \<open>z\<close> is known nowhere, \<open>idle\<close> holds a lock file
  only.
\<close>

definition exampleSession :: "string \<Rightarrow> string \<Rightarrow> time \<Rightarrow> SessionEntry" where
  "exampleSession sessionID projectPath modified =
     \<lparr> SessionEntry.SessionID = sessionID, FullPath = '''', FileMtime = 0,
       SessionEntry.FirstPrompt = ''fix it'', SessionEntry.Summary = ''a fix'', MessageCount = 2, Created = 0, Modified = modified,
       GitBranch = ''main'', SessionEntry.ProjectPath = projectPath, IsSidechain = False \<rparr>"

definition exampleFS :: FileSystem where
  "exampleFS =
     \<lparr> readDirProjects =
         Inr [DirEntry ''-src-github-com-org1-repoX'' True,
              DirEntry ''-src-github-com-org1-repoX-wt'' True, DirEntry ''-tmp-empty'' True,
              DirEntry ''-tmp-y'' True, DirEntry ''README'' False],
       readIndexFile = (\<lambda>d.
         if d = ''-src-github-com-org1-repoX'' then
           Decoded \<lparr> Version = 1, Entries =
             [exampleSession ''a'' ''/src/github.com/org1/repoX'' 10,
              exampleSession ''b'' ''/src/github.com/org1/repoX'' 20] \<rparr>
         else if d = ''-src-github-com-org1-repoX-wt'' then
           Decoded \<lparr> Version = 1, Entries =
             [exampleSession ''d'' ''/src/github.com/org1/repoX-wt'' 25] \<rparr>
         else if d = ''-tmp-empty'' then Decoded \<lparr> Version = 1, Entries = [] \<rparr>
         else if d = ''-tmp-y'' then
           Decoded \<lparr> Version = 1, Entries = [exampleSession ''c'' ''/tmp/y'' 30] \<rparr>
         else ReadFileFails (PathError ENOENT)),
       statInProject = (\<lambda>d f. d = ''-tmp-y'' \<and> f = ''w.jsonl''),
       readDirTasks =
         Inr [DirEntry ''b'' True, DirEntry ''idle'' True, DirEntry ''notes.txt'' False,
              DirEntry ''w'' True, DirEntry ''z'' True],
       readDirTaskDir = (\<lambda>s.
         if s = ''b'' then Inr [DirEntry ''.lock'' False, DirEntry ''1.json'' False,
                                DirEntry ''2.json'' False]
         else if s = ''idle'' then Inr [DirEntry ''.lock'' False]
         else if s = ''w'' then Inr [DirEntry ''7.json'' False]
         else if s = ''z'' then Inr [DirEntry ''1.json'' False]
         else Inl (PathError ENOENT)) \<rparr>"

definition exampleProjectX :: Project where
  "exampleProjectX =
     \<lparr> Project.Path = ''/src/github.com/org1/repoX'', Project.Name = ''repoX'', Project.Shortname = ''repoX'',
       Project.Org = ''org1'', Project.DirName = ''-src-github-com-org1-repoX'',
       Sessions = [exampleSession ''b'' ''/src/github.com/org1/repoX'' 20,
                   exampleSession ''a'' ''/src/github.com/org1/repoX'' 10],
       Project.SessionCount = 2, Project.LastModified = 20 \<rparr>"

definition exampleProjectW :: Project where
  "exampleProjectW =
     \<lparr> Project.Path = ''/src/github.com/org1/repoX-wt'', Project.Name = ''repoX-wt'',
       Project.Shortname = ''repoX-wt'', Project.Org = ''org1'',
       Project.DirName = ''-src-github-com-org1-repoX-wt'',
       Sessions = [exampleSession ''d'' ''/src/github.com/org1/repoX-wt'' 25],
       Project.SessionCount = 1, Project.LastModified = 25 \<rparr>"

definition exampleIndexer :: ProjectIndexer where
  "exampleIndexer =
     \<lparr> projectsDir = ''/home/u/.claude/projects'', tasksDir = ''/home/u/.claude/tasks'' \<rparr>"

text \<open>The same file system with a projects directory that cannot be listed.\<close>

definition unreadableFS :: FileSystem where
  "unreadableFS = exampleFS \<lparr> readDirProjects := Inl (PathError EACCES) \<rparr>"

definition exampleProjectY :: Project where
  "exampleProjectY =
     \<lparr> Project.Path = ''/tmp/y'', Project.Name = ''y'', Project.Shortname = ''y'', Project.Org = '''', Project.DirName = ''-tmp-y'',
       Sessions = [exampleSession ''c'' ''/tmp/y'' 30],
       Project.SessionCount = 1, Project.LastModified = 30 \<rparr>"

definition exampleSummary :: "string \<Rightarrow> string \<Rightarrow> ProjectSummary" where
  "exampleSummary name org =
     \<lparr> ProjectSummary.Name = name, ProjectSummary.Path = ''/src/github.com/'' @ org @ ''/'' @ name,
       ProjectSummary.DirName = ''-src-github-com-'' @ org @ ''-'' @ name,
       ProjectSummary.Shortname = name, ProjectSummary.Org = org,
       ProjectSummary.BaseRepo = '''', ProjectSummary.SessionCount = 1,
       ProjectSummary.LastModified = 5, LastBranch = ''main'', LastSummary = ''a fix'' \<rparr>"

definition exampleSummaries :: "ProjectSummary list" where
  "exampleSummaries =
     [exampleSummary ''repo'' ''org1'', exampleSummary ''repo-client'' ''org1'',
      exampleSummary ''repo-client-wt'' ''org1'', exampleSummary ''other'' ''org1'']"

text \<open>The summaries and the groups of the example file system.\<close>

definition exampleListedSummaries :: "ProjectSummary list" where
  "exampleListedSummaries =
     [(summarize exampleProjectY) \<lparr> ProjectSummary.BaseRepo := ''y'' \<rparr>,
      (summarize exampleProjectW) \<lparr> ProjectSummary.BaseRepo := ''repoX'' \<rparr>,
      (summarize exampleProjectX) \<lparr> ProjectSummary.BaseRepo := ''repoX'' \<rparr>]"

definition exampleGroups :: "ProjectGroup list" where
  "exampleGroups =
     [\<lparr> ProjectGroup.BaseRepo = ''y'', ProjectGroup.Org = '''',
        Projects = [exampleListedSummaries ! 0],
        TotalSessions = 1, ProjectGroup.LastModified = 30 \<rparr>,
      \<lparr> ProjectGroup.BaseRepo = ''repoX'', ProjectGroup.Org = ''org1'',
        Projects = [exampleListedSummaries ! 1, exampleListedSummaries ! 2],
        TotalSessions = 3, ProjectGroup.LastModified = 25 \<rparr>]"

text \<open>
  A project whose name is another's followed by a bare dash; and an organization with two
  names of one length, beside a project without organization.
\<close>

definition emptySuffixSummaries :: "ProjectSummary list" where
  "emptySuffixSummaries = [exampleSummary ''repo'' ''org1'', exampleSummary ''repo-'' ''org1'']"

definition tiedSummaries :: "ProjectSummary list" where
  "tiedSummaries =
     [exampleSummary ''ab'' ''org1'', exampleSummary ''cd'' ''org1'',
      exampleSummary ''ab-x'' ''org1'', exampleSummary ''solo'' '''']"

text \<open>
  A second sorter that the guarantee admits; it leaves equal keys in the opposite order.
\<close>

definition reversing_sorter :: sorter where
  "reversing_sorter ks = sort_key (\<lambda>i. - (ks ! i)) (rev [0..<length ks])"

section \<open>Properties of the sort\<close>

lemma stable_sorter_ok: "sorter_ok stable_sorter"
proof -
  have "sorted_wrt (\<lambda>i j. ks ! j \<le> ks ! i) (sort_key (\<lambda>i. - (ks ! i)) [0..<length ks])"
    for ks :: "int list"
    using sorted_sort_key [of "\<lambda>i. - (ks ! i)" "[0..<length ks]"]
    by (simp add: sorted_map)
  then show ?thesis
    by (simp add: sorter_ok_def stable_sorter_def)
qed

lemma mset_sort_Slice:
  assumes "sorter_ok srt"
  shows "mset (sort_Slice srt key xs) = mset xs"
proof -
  have "mset (srt (map key xs)) = mset [0..<length xs]"
    using assms by (simp add: sorter_ok_def)
  then have "image_mset ((!) xs) (mset (srt (map key xs))) = image_mset ((!) xs) (mset [0..<length xs])"
    by simp
  then have "mset (map ((!) xs) (srt (map key xs))) = mset (map ((!) xs) [0..<length xs])"
    by simp
  then show ?thesis
    by (simp add: sort_Slice_def map_nth)
qed

lemma set_sort_Slice: "sorter_ok srt \<Longrightarrow> set (sort_Slice srt key xs) = set xs"
  using mset_sort_Slice [of srt key xs] by (metis set_mset_mset)

lemma length_sort_Slice: "sorter_ok srt \<Longrightarrow> length (sort_Slice srt key xs) = length xs"
  using mset_sort_Slice [of srt key xs] by (metis size_mset)

lemma sort_Slice_Nil_iff: "sorter_ok srt \<Longrightarrow> sort_Slice srt key xs = [] \<longleftrightarrow> xs = []"
  using length_sort_Slice [of srt key xs] by auto

lemma sorted_sort_Slice:
  assumes "sorter_ok srt"
  shows "sorted_wrt (\<lambda>a b. key b \<le> key a) (sort_Slice srt key xs)"
proof -
  let ?ks = "map key xs"
  have perm: "mset (srt ?ks) = mset [0..<length xs]"
    using assms by (simp add: sorter_ok_def)
  then have range: "set (srt ?ks) = {0..<length xs}"
    by (metis mset_eq_setD set_upt)
  have "sorted_wrt (\<lambda>i j. ?ks ! j \<le> ?ks ! i) (srt ?ks)"
    using assms by (simp add: sorter_ok_def)
  then have "sorted_wrt (\<lambda>i j. key (xs ! j) \<le> key (xs ! i)) (srt ?ks)"
    by (rule sorted_wrt_mono_rel [rotated]) (simp add: range)
  then show ?thesis
    by (simp add: sort_Slice_def sorted_wrt_map)
qed

text \<open>The first element of a list sorted downwards carries the greatest key.\<close>

lemma sorted_desc_hd_Max:
  assumes "sorted_wrt (\<lambda>a b. key b \<le> key a) (x # xs)"
  shows "key x = Max (key ` set (x # xs))"
proof -
  have "\<forall>y \<in> set (x # xs). key y \<le> key x"
    using assms by auto
  then show ?thesis
    by (intro Max_eqI [symmetric]) auto
qed

section \<open>Properties of the task counters\<close>

lemma countTaskFiles_filter:
  "countTaskFiles es n =
     n + int (length (filter (\<lambda>e. strings_HasSuffix (entry_Name e) ''.json'') es))"
  by (induction es arbitrary: n) simp_all

lemma hasTaskFile_iff:
  "hasTaskFile es \<longleftrightarrow> (\<exists>e \<in> set es. strings_HasSuffix (entry_Name e) ''.json'')"
  by (induction es) simp_all

lemma hasTaskFile_count: "hasTaskFile es \<longleftrightarrow> 0 < countTaskFiles es 0"
  by (simp add: hasTaskFile_iff countTaskFiles_filter filter_empty_conv)

text \<open>
  Claim C9. \<open>GetTaskCount\<close> returns the number of entries of the session's task directory
  whose name ends in \<^verbatim>\<open>.json\<close>, and returns 0, with no error, when the directory
  cannot be read (it is missing, or the read fails otherwise). The result type has no error
  component. Every entry of the listing is counted by its name alone, as the code does.
\<close>

theorem GetTaskCount_counts_json_entries:
  "(\<forall>err. readDirTaskDir fs sessionID = Inl err \<longrightarrow> GetTaskCount fs sessionID = 0) \<and>
   (\<forall>entries. readDirTaskDir fs sessionID = Inr entries \<longrightarrow>
      GetTaskCount fs sessionID =
        int (length (filter (\<lambda>e. suffix ''.json'' (entry_Name e)) entries)))"
  by (simp add: GetTaskCount_def countTaskFiles_filter strings_HasSuffix_def)

theorem GetTaskCount_counts_json_entries_witness:
  "readDirTaskDir exampleFS ''gone'' = Inl (PathError ENOENT) \<and>
   GetTaskCount exampleFS ''gone'' = 0 \<and>
   readDirTaskDir exampleFS ''b'' =
     Inr [DirEntry ''.lock'' False, DirEntry ''1.json'' False, DirEntry ''2.json'' False] \<and>
   GetTaskCount exampleFS ''b'' = 2"
  using GetTaskCount_counts_json_entries [of exampleFS "''gone''"]
    GetTaskCount_counts_json_entries [of exampleFS "''b''"]
  by (simp add: exampleFS_def suffix_to_prefix)

text \<open>
  Claim C10. On every observation of the file system and for every session identifier,
  \<open>HasTasks\<close> is true exactly when \<open>GetTaskCount\<close> is positive; this covers task
  directories that cannot be read and directories with no \<^verbatim>\<open>.json\<close> entry.
\<close>

theorem HasTasks_iff_GetTaskCount_positive:
  "HasTasks fs sessionID \<longleftrightarrow> 0 < GetTaskCount fs sessionID"
  by (simp add: HasTasks_def GetTaskCount_def hasTaskFile_count split: sum.split)

section \<open>Properties of project loading\<close>

lemma example_loadProject_X:
  "loadProject stable_sorter exampleFS ''-src-github-com-org1-repoX'' = Inr exampleProjectX"
  by (simp add: loadProject_def exampleFS_def sort_Slice_def stable_sorter_def
      exampleSession_def exampleProjectX_def extractProjectInfo_def filepath_Base_def
      lastElement_def stripTrailingSeparators_def Let_def)

lemma example_loadProject_Y:
  "loadProject stable_sorter exampleFS ''-tmp-y'' = Inr exampleProjectY"
  by (simp add: loadProject_def exampleFS_def sort_Slice_def stable_sorter_def
      exampleSession_def exampleProjectY_def extractProjectInfo_def filepath_Base_def
      lastElement_def stripTrailingSeparators_def Let_def)

lemma example_loadProject_W:
  "loadProject stable_sorter exampleFS ''-src-github-com-org1-repoX-wt'' = Inr exampleProjectW"
  by (simp add: loadProject_def exampleFS_def sort_Slice_def stable_sorter_def
      exampleSession_def exampleProjectW_def extractProjectInfo_def filepath_Base_def
      lastElement_def stripTrailingSeparators_def Let_def)

lemma example_loadProject_empty:
  "loadProject srt exampleFS ''-tmp-empty'' = Inl ErrNotExist"
  by (simp add: loadProject_def exampleFS_def)

lemma example_ListProjects:
  "ListProjects stable_sorter exampleFS = Inr [exampleProjectY, exampleProjectW, exampleProjectX]"
proof -
  have "loadProjects stable_sorter exampleFS
          [DirEntry ''-src-github-com-org1-repoX'' True,
           DirEntry ''-src-github-com-org1-repoX-wt'' True, DirEntry ''-tmp-empty'' True,
           DirEntry ''-tmp-y'' True, DirEntry ''README'' False] []
        = [exampleProjectX, exampleProjectW, exampleProjectY]"
    by (simp add: example_loadProject_X example_loadProject_W example_loadProject_Y
        example_loadProject_empty)
  moreover have "sort_Slice stable_sorter Project.LastModified
          [exampleProjectX, exampleProjectW, exampleProjectY]
        = [exampleProjectY, exampleProjectW, exampleProjectX]"
    by (simp add: sort_Slice_def stable_sorter_def exampleProjectX_def exampleProjectW_def
        exampleProjectY_def)
  ultimately show ?thesis
    by (simp add: ListProjects_def exampleFS_def)
qed

lemma loadProject_Inr:
  assumes "sorter_ok srt" and "loadProject srt fs dirName = Inr project"
  shows "\<exists>idx. readIndexFile fs dirName = Decoded idx \<and> Entries idx \<noteq> [] \<and>
           Sessions project = sort_Slice srt Modified (Entries idx) \<and>
           Sessions project \<noteq> [] \<and>
           Project.LastModified project = Modified (hd (Sessions project)) \<and>
           Project.SessionCount project = int (length (Sessions project)) \<and>
           Project.DirName project = dirName"
  using assms(2)
  by (auto simp: loadProject_def Let_def
      split: indexFile.splits if_splits list.splits prod.splits)

lemma loadProject_sessionsNewestFirst:
  assumes "sorter_ok srt" and "loadProject srt fs dirName = Inr project"
  shows "sessionsNewestFirst project"
proof -
  from loadProject_Inr [OF assms] obtain idx :: sessionsIndex where
    sess: "Sessions project = sort_Slice srt Modified (Entries idx)" and
    ne: "Sessions project \<noteq> []" and
    lm: "Project.LastModified project = Modified (hd (Sessions project))"
    by auto
  have sorted: "sorted_wrt (\<lambda>a b. Modified b \<le> Modified a) (Sessions project)"
    unfolding sess using assms(1) by (rule sorted_sort_Slice)
  from ne obtain first others where eq: "Sessions project = first # others"
    by (cases "Sessions project") auto
  have "Modified first = Max (Modified ` set (first # others))"
    using sorted unfolding eq by (rule sorted_desc_hd_Max)
  then show ?thesis
    using sorted ne lm by (simp add: sessionsNewestFirst_def eq)
qed

lemma set_loadProjects:
  "set (loadProjects srt fs entries projects) =
     set projects \<union>
     {p. \<exists>e \<in> set entries. entry_IsDir e \<and> loadProject srt fs (entry_Name e) = Inr p}"
  by (induction entries arbitrary: projects) (auto split: sum.splits)

lemma ListProjects_Inr:
  assumes "sorter_ok srt" and "ListProjects srt fs = Inr projects"
  shows "\<exists>entries. readDirProjects fs = Inr entries \<and>
           projects = sort_Slice srt Project.LastModified (loadProjects srt fs entries [])"
  using assms(2) by (auto simp: ListProjects_def split: sum.splits)

lemma ListProjects_member:
  assumes "sorter_ok srt" and "ListProjects srt fs = Inr projects" and "project \<in> set projects"
  shows "\<exists>dirName. loadProject srt fs dirName = Inr project"
proof -
  from ListProjects_Inr [OF assms(1,2)] obtain entries where
    "projects = sort_Slice srt Project.LastModified (loadProjects srt fs entries [])"
    by blast
  then have "project \<in> set (loadProjects srt fs entries [])"
    using assms(1,3) by (simp add: set_sort_Slice)
  then show ?thesis
    by (auto simp: set_loadProjects)
qed

text \<open>
  Claim C4. With a sort that keeps the library's guarantee, every project that
  \<open>loadProject\<close> returns has its sessions sorted non-increasing by \<open>Modified\<close> and its
  \<open>Project.LastModified\<close> equal to the maximum of its sessions' \<open>Modified\<close>, which is that of
  the first session; the same holds of every project in a list that \<open>ListProjects\<close>
  returns, and that list is sorted non-increasing by \<open>Project.LastModified\<close>.
\<close>

theorem sessions_and_projects_newest_first:
  assumes "sorter_ok srt"
  shows "(\<forall>dirName project. loadProject srt fs dirName = Inr project \<longrightarrow>
            sessionsNewestFirst project) \<and>
         (\<forall>projects. ListProjects srt fs = Inr projects \<longrightarrow>
            sorted_wrt (\<lambda>p q. Project.LastModified q \<le> Project.LastModified p) projects \<and>
            (\<forall>project \<in> set projects. sessionsNewestFirst project))"
proof (intro conjI allI impI ballI)
  fix dirName project
  assume "loadProject srt fs dirName = Inr project"
  with assms show "sessionsNewestFirst project"
    by (rule loadProject_sessionsNewestFirst)
next
  fix projects
  assume "ListProjects srt fs = Inr projects"
  with assms obtain entries where
    "projects = sort_Slice srt Project.LastModified (loadProjects srt fs entries [])"
    using ListProjects_Inr by blast
  then show "sorted_wrt (\<lambda>p q. Project.LastModified q \<le> Project.LastModified p) projects"
    using assms by (simp add: sorted_sort_Slice)
next
  fix projects project
  assume "ListProjects srt fs = Inr projects" and "project \<in> set projects"
  with assms obtain dirName where "loadProject srt fs dirName = Inr project"
    using ListProjects_member by blast
  with assms show "sessionsNewestFirst project"
    by (rule loadProject_sessionsNewestFirst)
qed

theorem sessions_and_projects_newest_first_witness:
  "sorter_ok stable_sorter \<and>
   loadProject stable_sorter exampleFS ''-src-github-com-org1-repoX'' = Inr exampleProjectX \<and>
   sessionsNewestFirst exampleProjectX \<and>
   ListProjects stable_sorter exampleFS =
     Inr [exampleProjectY, exampleProjectW, exampleProjectX] \<and>
   sorted_wrt (\<lambda>p q. Project.LastModified q \<le> Project.LastModified p)
     [exampleProjectY, exampleProjectW, exampleProjectX] \<and>
   sessionsNewestFirst exampleProjectY"
  using sessions_and_projects_newest_first [OF stable_sorter_ok, of exampleFS]
    example_loadProject_X example_ListProjects stable_sorter_ok
  by simp

text \<open>
  Claim C8. An index that decodes to no entries makes \<open>loadProject\<close>, and so
  \<open>GetProject\<close>, fail with \<^verbatim>\<open>os.ErrNotExist\<close>; a missing index file makes them fail
  with the read's error, and both errors are not-exist errors. With a sort that keeps the
  library's guarantee, every project in a list that \<open>ListProjects\<close> returns has at least
  one session.
\<close>

theorem empty_index_is_not_found:
  assumes "sorter_ok srt"
  shows "(\<forall>dirName idx. readIndexFile fs dirName = Decoded idx \<and> Entries idx = [] \<longrightarrow>
            loadProject srt fs dirName = Inl ErrNotExist \<and>
            GetProject srt fs dirName = Inl ErrNotExist \<and> isNotExist ErrNotExist) \<and>
         (\<forall>dirName. readIndexFile fs dirName = ReadFileFails (PathError ENOENT) \<longrightarrow>
            loadProject srt fs dirName = Inl (PathError ENOENT) \<and>
            GetProject srt fs dirName = Inl (PathError ENOENT) \<and>
            isNotExist (PathError ENOENT)) \<and>
         (\<forall>projects. ListProjects srt fs = Inr projects \<longrightarrow>
            (\<forall>project \<in> set projects.
               Sessions project \<noteq> [] \<and> 1 \<le> Project.SessionCount project))"
proof (intro conjI allI impI ballI)
  fix projects project
  assume "ListProjects srt fs = Inr projects" and "project \<in> set projects"
  with assms obtain dirName where "loadProject srt fs dirName = Inr project"
    using ListProjects_member by blast
  from loadProject_Inr [OF assms this]
  have ne: "Sessions project \<noteq> []"
    and cnt: "Project.SessionCount project = int (length (Sessions project))"
    by auto
  show "Sessions project \<noteq> []" by (rule ne)
  from ne have "0 < length (Sessions project)" by simp
  with cnt show "1 \<le> Project.SessionCount project" by (simp add: Suc_le_eq)
qed (simp_all add: loadProject_def GetProject_def)

theorem empty_index_is_not_found_witness:
  "sorter_ok stable_sorter \<and>
   readIndexFile exampleFS ''-tmp-empty'' = Decoded \<lparr> Version = 1, Entries = [] \<rparr> \<and>
   loadProject stable_sorter exampleFS ''-tmp-empty'' = Inl ErrNotExist \<and>
   GetProject stable_sorter exampleFS ''-tmp-empty'' = Inl ErrNotExist \<and>
   readIndexFile exampleFS ''-gone'' = ReadFileFails (PathError ENOENT) \<and>
   loadProject stable_sorter exampleFS ''-gone'' = Inl (PathError ENOENT) \<and>
   ListProjects stable_sorter exampleFS =
     Inr [exampleProjectY, exampleProjectW, exampleProjectX] \<and>
   Sessions exampleProjectY \<noteq> [] \<and> Sessions exampleProjectW \<noteq> [] \<and>
   Sessions exampleProjectX \<noteq> []"
  using empty_index_is_not_found [OF stable_sorter_ok, of exampleFS]
    example_ListProjects stable_sorter_ok
  by (simp add: exampleFS_def)

section \<open>Properties of the base repositories\<close>

lemma reversing_sorter_ok: "sorter_ok reversing_sorter"
proof -
  have "sorted_wrt (\<lambda>i j. ks ! j \<le> ks ! i) (sort_key (\<lambda>i. - (ks ! i)) (rev [0..<length ks]))"
    for ks :: "int list"
    using sorted_sort_key [of "\<lambda>i. - (ks ! i)" "rev [0..<length ks]"]
    by (simp add: sorted_map)
  then show ?thesis
    by (simp add: sorter_ok_def reversing_sorter_def)
qed

lemma lookupRepos_collectOrgRepos:
  "org \<noteq> '''' \<Longrightarrow>
   lookupRepos (collectOrgRepos summaries orgRepos) org =
     lookupRepos orgRepos org @ orgNames summaries org"
  by (induction summaries arbitrary: orgRepos) (auto simp: lookupRepos_def orgNames_def)

lemma sort_Slice_Nil: "sorter_ok srt \<Longrightarrow> sort_Slice srt key [] = []"
  by (simp add: sort_Slice_Nil_iff)

lemma lookupRepos_sortOrgRepos:
  assumes "sorter_ok srt"
  shows "lookupRepos (sortOrgRepos srt orgRepos) org =
           sort_Slice srt (\<lambda>repo. int (length repo)) (lookupRepos orgRepos org)"
  using assms by (simp add: lookupRepos_def sortOrgRepos_def sort_Slice_Nil split: option.splits)

lemma scanned_candidates:
  assumes "sorter_ok srt" and "org \<noteq> ''''"
  shows "lookupRepos (sortOrgRepos srt (collectOrgRepos summaries Map.empty)) org =
           orgCandidates srt summaries org"
  using assms
  by (simp add: lookupRepos_sortOrgRepos lookupRepos_collectOrgRepos orgCandidates_def)
     (simp add: lookupRepos_def)

lemma findBaseRepo_find:
  "findBaseRepo name repos =
     (case find (\<lambda>c. prefix (c @ ''-'') name) (filter (\<lambda>c. c \<noteq> name) repos) of
        Some c \<Rightarrow> c
      | None \<Rightarrow> name)"
  by (induction repos) (simp_all add: strings_HasPrefix_def)

lemma prefix_dash_neq: "prefix (c @ ''-'') name \<Longrightarrow> c \<noteq> name"
  by (auto simp: prefix_def)

lemma find_sorted_first:
  assumes "sorted_wrt R xs" and "find P xs = Some x"
  shows "P x \<and> x \<in> set xs \<and> (\<forall>y \<in> set xs. P y \<longrightarrow> y = x \<or> R x y)"
  using assms by (induction xs) (auto split: if_splits)

lemma computeBaseRepos_nth:
  assumes "sorter_ok srt" and "i < length summaries"
  shows "computeBaseRepos srt summaries ! i =
           (summaries ! i) \<lparr> ProjectSummary.BaseRepo :=
              (if ProjectSummary.Org (summaries ! i) = '''' then ProjectSummary.Name (summaries ! i)
               else findBaseRepo (ProjectSummary.Name (summaries ! i))
                      (orgCandidates srt summaries (ProjectSummary.Org (summaries ! i)))) \<rparr>"
  using assms by (simp add: computeBaseRepos_def assignBaseRepo_def scanned_candidates)

lemma mset_orgCandidates:
  "sorter_ok srt \<Longrightarrow> mset (orgCandidates srt summaries org) = mset (orgNames summaries org)"
  by (simp add: orgCandidates_def mset_sort_Slice)

lemma sorted_orgCandidates:
  assumes "sorter_ok srt"
  shows "sorted_wrt (\<lambda>a b. length b \<le> length a) (orgCandidates srt summaries org)"
  using sorted_sort_Slice [OF assms, of "\<lambda>repo. int (length repo)" "orgNames summaries org"]
  by (simp add: orgCandidates_def)

lemma baseRepo_longest_match:
  assumes ok: "sorter_ok srt" and i: "i < length summaries"
    and org: "ProjectSummary.Org (summaries ! i) \<noteq> ''''"
  defines "b \<equiv> ProjectSummary.BaseRepo (computeBaseRepos srt summaries ! i)"
    and "M \<equiv> matchingSiblings summaries (summaries ! i)"
  shows "(M = {} \<longrightarrow> b = ProjectSummary.Name (summaries ! i)) \<and>
         (M \<noteq> {} \<longrightarrow> b \<in> M \<and> (\<forall>c \<in> M. length c \<le> length b))"
proof -
  let ?s = "summaries ! i"
  let ?name = "ProjectSummary.Name ?s"
  let ?P = "\<lambda>c. prefix (c @ ''-'') ?name"
  let ?cands = "filter (\<lambda>c. c \<noteq> ?name) (orgCandidates srt summaries (ProjectSummary.Org ?s))"
  have b: "b = (case find ?P ?cands of Some c \<Rightarrow> c | None \<Rightarrow> ?name)"
    using ok i org by (simp add: b_def computeBaseRepos_nth findBaseRepo_find)
  have "set (orgCandidates srt summaries (ProjectSummary.Org ?s)) =
        set (orgNames summaries (ProjectSummary.Org ?s))"
    using mset_orgCandidates [OF ok] by (metis set_mset_mset)
  then have M: "M = {c \<in> set ?cands. ?P c}"
    by (auto simp: M_def matchingSiblings_def dest: prefix_dash_neq)
  have sorted: "sorted_wrt (\<lambda>a b. length b \<le> length a) ?cands"
    using sorted_orgCandidates [OF ok] by (rule sorted_wrt_filter)
  show ?thesis
  proof (cases "find ?P ?cands")
    case None
    then have "M = {}" unfolding M by (auto simp: find_None_iff)
    with None b show ?thesis by simp
  next
    case (Some c)
    from find_sorted_first [OF sorted Some]
    have "c \<in> M" and "\<forall>y \<in> M. length y \<le> length c"
      unfolding M by auto
    with Some b show ?thesis by auto
  qed
qed

lemma same_length_prefix_eq:
  assumes "prefix (c @ ''-'') name" and "prefix (d @ ''-'') name" and "length c = length d"
  shows "c = d"
  using assms by (auto simp: prefix_def)

lemma matchingSiblings_cong:
  assumes "set summaries' = set summaries"
    and "ProjectSummary.Name s' = ProjectSummary.Name s"
    and "ProjectSummary.Org s' = ProjectSummary.Org s"
  shows "matchingSiblings summaries' s' = matchingSiblings summaries s"
  using assms by (simp add: matchingSiblings_def orgNames_def)

lemma findBaseRepo_firstCandidate:
  "findBaseRepo name repos = firstCandidate prefix_matches repos name"
  by (simp add: findBaseRepo_find firstCandidate_def prefix_matches_def [abs_def])

lemma length_computeBaseRepos: "length (computeBaseRepos srt summaries) = length summaries"
  by (simp add: computeBaseRepos_def)

lemma example_orgCandidates_tied:
  "orgCandidates stable_sorter tiedSummaries ''org1'' = [''ab-x'', ''ab'', ''cd'']"
  by (simp add: orgCandidates_def orgNames_def tiedSummaries_def exampleSummary_def
      sort_Slice_def stable_sorter_def)

text \<open>
  Claim C1, as the code has it. With a sort that keeps the library's guarantee,
  \<open>computeBaseRepos\<close> changes nothing but \<open>BaseRepo\<close>. A project without
  organization gets its own name. A project with an organization gets the first candidate,
  among the organization's names sorted longest first and without the project's own name,
  that followed by a dash starts the project's name, and its own name when there is none.
  The suffix after the dash may be empty.
\<close>

theorem computeBaseRepos_first_prefix_candidate:
  assumes "sorter_ok srt"
  shows "length (computeBaseRepos srt summaries) = length summaries \<and>
    (\<forall>i < length summaries.
       computeBaseRepos srt summaries ! i =
         (summaries ! i) \<lparr> ProjectSummary.BaseRepo :=
            ProjectSummary.BaseRepo (computeBaseRepos srt summaries ! i) \<rparr> \<and>
       (ProjectSummary.Org (summaries ! i) = '''' \<longrightarrow>
          ProjectSummary.BaseRepo (computeBaseRepos srt summaries ! i) =
            ProjectSummary.Name (summaries ! i)) \<and>
       (ProjectSummary.Org (summaries ! i) \<noteq> '''' \<longrightarrow>
          mset (orgCandidates srt summaries (ProjectSummary.Org (summaries ! i))) =
            mset (orgNames summaries (ProjectSummary.Org (summaries ! i))) \<and>
          sorted_wrt (\<lambda>a b. length b \<le> length a)
            (orgCandidates srt summaries (ProjectSummary.Org (summaries ! i))) \<and>
          ProjectSummary.BaseRepo (computeBaseRepos srt summaries ! i) =
            firstCandidate prefix_matches
              (orgCandidates srt summaries (ProjectSummary.Org (summaries ! i)))
              (ProjectSummary.Name (summaries ! i))))"
proof (intro conjI allI impI)
  show "length (computeBaseRepos srt summaries) = length summaries"
    by (simp add: computeBaseRepos_def)
next
  fix i assume "i < length summaries"
  with assms show "computeBaseRepos srt summaries ! i =
         (summaries ! i) \<lparr> ProjectSummary.BaseRepo :=
            ProjectSummary.BaseRepo (computeBaseRepos srt summaries ! i) \<rparr>"
    by (simp add: computeBaseRepos_nth)
next
  fix i assume "i < length summaries" and "ProjectSummary.Org (summaries ! i) = ''''"
  with assms show "ProjectSummary.BaseRepo (computeBaseRepos srt summaries ! i) =
            ProjectSummary.Name (summaries ! i)"
    by (simp add: computeBaseRepos_nth)
next
  fix i assume "i < length summaries" and "ProjectSummary.Org (summaries ! i) \<noteq> ''''"
  with assms show "ProjectSummary.BaseRepo (computeBaseRepos srt summaries ! i) =
            firstCandidate prefix_matches
              (orgCandidates srt summaries (ProjectSummary.Org (summaries ! i)))
              (ProjectSummary.Name (summaries ! i))"
    by (simp add: computeBaseRepos_nth findBaseRepo_firstCandidate)
qed (use assms in \<open>simp_all add: mset_orgCandidates sorted_orgCandidates\<close>)

theorem computeBaseRepos_first_prefix_candidate_witness:
  "sorter_ok stable_sorter \<and> (2::nat) < length tiedSummaries \<and> (3::nat) < length tiedSummaries \<and>
   ProjectSummary.Org (tiedSummaries ! 2) \<noteq> '''' \<and>
   ProjectSummary.Org (tiedSummaries ! 3) = '''' \<and>
   orgCandidates stable_sorter tiedSummaries ''org1'' = [''ab-x'', ''ab'', ''cd''] \<and>
   ProjectSummary.BaseRepo (computeBaseRepos stable_sorter tiedSummaries ! 2) =
     firstCandidate prefix_matches [''ab-x'', ''ab'', ''cd''] ''ab-x'' \<and>
   firstCandidate prefix_matches [''ab-x'', ''ab'', ''cd''] ''ab-x'' = ''ab'' \<and>
   ProjectSummary.BaseRepo (computeBaseRepos stable_sorter tiedSummaries ! 3) = ''solo''"
  using computeBaseRepos_first_prefix_candidate [OF stable_sorter_ok, of tiedSummaries]
    example_orgCandidates_tied stable_sorter_ok
  by (simp add: tiedSummaries_def exampleSummary_def firstCandidate_def prefix_matches_def)

text \<open>
  Claim C1, as it is stated, asks for a suffix that is not empty. With the projects
  \<^verbatim>\<open>repo\<close> and \<^verbatim>\<open>repo-\<close> in one organization, the code gives \<^verbatim>\<open>repo-\<close> the
  base \<^verbatim>\<open>repo\<close>, where the stated rule finds no candidate and keeps the own name.
\<close>

theorem computeBaseRepos_empty_suffix_counterexample:
  "ProjectSummary.BaseRepo (computeBaseRepos stable_sorter emptySuffixSummaries ! 1) = ''repo'' \<and>
   firstCandidate spec_matches (orgCandidates stable_sorter emptySuffixSummaries ''org1'')
     (ProjectSummary.Name (emptySuffixSummaries ! 1)) = ''repo-''"
  by (simp add: computeBaseRepos_def assignBaseRepo_def sortOrgRepos_def lookupRepos_def
      emptySuffixSummaries_def exampleSummary_def sort_Slice_def stable_sorter_def
      strings_HasPrefix_def firstCandidate_def spec_matches_def orgCandidates_def orgNames_def)

lemma example_matchingSiblings:
  "matchingSiblings exampleSummaries (exampleSummaries ! 0) = {}"
  "matchingSiblings exampleSummaries (exampleSummaries ! 1) = {''repo''}"
  "matchingSiblings exampleSummaries (exampleSummaries ! 2) = {''repo'', ''repo-client''}"
  "matchingSiblings exampleSummaries (exampleSummaries ! 3) = {}"
  by (auto simp: matchingSiblings_def orgNames_def exampleSummaries_def exampleSummary_def)

lemma list_of_length_4:
  assumes "length xs = 4"
  shows "xs = [xs ! 0, xs ! 1, xs ! 2, xs ! 3]"
proof (rule nth_equalityI)
  show "length xs = length [xs ! 0, xs ! 1, xs ! 2, xs ! 3]"
    using assms by simp
next
  fix i assume "i < length xs"
  with assms have "i = 0 \<or> i = 1 \<or> i = 2 \<or> i = 3"
    by arith
  then show "xs ! i = [xs ! 0, xs ! 1, xs ! 2, xs ! 3] ! i"
    by (elim disjE) simp_all
qed

lemma example_summaries_length:
  "0 < length exampleSummaries" "1 < length exampleSummaries"
  "2 < length exampleSummaries" "3 < length exampleSummaries"
  "length exampleSummaries = 4"
  by (simp_all add: exampleSummaries_def)

lemma example_summaries_org:
  "ProjectSummary.Org (exampleSummaries ! 0) \<noteq> ''''"
  "ProjectSummary.Org (exampleSummaries ! 1) \<noteq> ''''"
  "ProjectSummary.Org (exampleSummaries ! 2) \<noteq> ''''"
  "ProjectSummary.Org (exampleSummaries ! 3) \<noteq> ''''"
  by (simp_all add: exampleSummaries_def exampleSummary_def)

lemma example_summaries_name:
  "ProjectSummary.Name (exampleSummaries ! 0) = ''repo''"
  "ProjectSummary.Name (exampleSummaries ! 3) = ''other''"
  by (simp_all add: exampleSummaries_def exampleSummary_def)

text \<open>
  Claim C2. For the organization with the projects \<^verbatim>\<open>repo\<close>, \<^verbatim>\<open>repo-client\<close>,
  \<^verbatim>\<open>repo-client-wt\<close> and \<^verbatim>\<open>other\<close> the claim has \<^verbatim>\<open>repo-client\<close> as its own
  base. Under every sort that keeps the library's guarantee the code gives
  \<^verbatim>\<open>repo-client\<close> the base \<^verbatim>\<open>repo\<close>, since \<^verbatim>\<open>repo-\<close> starts its name; the
  other three are as claimed.
\<close>

theorem computeBaseRepos_repo_client_under_repo:
  assumes "sorter_ok srt"
  shows "map ProjectSummary.BaseRepo (computeBaseRepos srt exampleSummaries) =
           [''repo'', ''repo'', ''repo-client'', ''other'']"
proof -
  let ?b = "\<lambda>i. ProjectSummary.BaseRepo (computeBaseRepos srt exampleSummaries ! i)"
  have len: "length (computeBaseRepos srt exampleSummaries) = 4"
    by (simp add: length_computeBaseRepos example_summaries_length)
  have b0: "?b 0 = ''repo''"
    using baseRepo_longest_match
      [OF assms example_summaries_length(1) example_summaries_org(1)]
    unfolding example_matchingSiblings example_summaries_name by simp
  have b1: "?b 1 = ''repo''"
    using baseRepo_longest_match
      [OF assms example_summaries_length(2) example_summaries_org(2)]
    unfolding example_matchingSiblings by simp
  have b2: "?b 2 = ''repo-client''"
    using baseRepo_longest_match
      [OF assms example_summaries_length(3) example_summaries_org(3)]
    unfolding example_matchingSiblings by auto
  have b3: "?b 3 = ''other''"
    using baseRepo_longest_match
      [OF assms example_summaries_length(4) example_summaries_org(4)]
    unfolding example_matchingSiblings example_summaries_name by simp
  from len have "computeBaseRepos srt exampleSummaries =
      [computeBaseRepos srt exampleSummaries ! 0, computeBaseRepos srt exampleSummaries ! 1,
       computeBaseRepos srt exampleSummaries ! 2, computeBaseRepos srt exampleSummaries ! 3]"
    by (rule list_of_length_4)
  then have "map ProjectSummary.BaseRepo (computeBaseRepos srt exampleSummaries) =
      map ProjectSummary.BaseRepo
        [computeBaseRepos srt exampleSummaries ! 0, computeBaseRepos srt exampleSummaries ! 1,
         computeBaseRepos srt exampleSummaries ! 2, computeBaseRepos srt exampleSummaries ! 3]"
    by (rule arg_cong)
  also have "\<dots> = [?b 0, ?b 1, ?b 2, ?b 3]"
    by (simp only: list.map)
  finally show ?thesis
    by (simp only: b0 b1 b2 b3)
qed

theorem computeBaseRepos_repo_client_under_repo_witness:
  "sorter_ok stable_sorter \<and>
   map ProjectSummary.BaseRepo (computeBaseRepos stable_sorter exampleSummaries) =
     [''repo'', ''repo'', ''repo-client'', ''other'']"
  using computeBaseRepos_repo_client_under_repo [OF stable_sorter_ok] stable_sorter_ok
  by simp

text \<open>
  Claim C3. Take two lists of summaries that are permutations of each other, and any two
  sorts that keep the library's guarantee, whatever they do with names of equal length. Two
  entries with the same name and organization get the same \<open>BaseRepo\<close>.
\<close>

theorem computeBaseRepos_order_independent:
  assumes ok: "sorter_ok srt" and ok': "sorter_ok srt'"
    and perm: "mset summaries' = mset summaries"
    and i: "i < length summaries" and j: "j < length summaries'"
    and name: "ProjectSummary.Name (summaries' ! j) = ProjectSummary.Name (summaries ! i)"
    and org: "ProjectSummary.Org (summaries' ! j) = ProjectSummary.Org (summaries ! i)"
  shows "ProjectSummary.BaseRepo (computeBaseRepos srt' summaries' ! j) =
         ProjectSummary.BaseRepo (computeBaseRepos srt summaries ! i)"
proof (cases "ProjectSummary.Org (summaries ! i) = ''''")
  case True
  with ok ok' i j name org show ?thesis
    by (simp add: computeBaseRepos_nth)
next
  case False
  let ?M = "matchingSiblings summaries (summaries ! i)"
  let ?b = "ProjectSummary.BaseRepo (computeBaseRepos srt summaries ! i)"
  let ?b' = "ProjectSummary.BaseRepo (computeBaseRepos srt' summaries' ! j)"
  have "set summaries' = set summaries"
    using perm by (metis set_mset_mset)
  then have M': "matchingSiblings summaries' (summaries' ! j) = ?M"
    using name org by (rule matchingSiblings_cong)
  have one: "(?M = {} \<longrightarrow> ?b = ProjectSummary.Name (summaries ! i)) \<and>
         (?M \<noteq> {} \<longrightarrow> ?b \<in> ?M \<and> (\<forall>c \<in> ?M. length c \<le> length ?b))"
    using baseRepo_longest_match [OF ok i False] .
  have two: "(?M = {} \<longrightarrow> ?b' = ProjectSummary.Name (summaries ! i)) \<and>
         (?M \<noteq> {} \<longrightarrow> ?b' \<in> ?M \<and> (\<forall>c \<in> ?M. length c \<le> length ?b'))"
    using baseRepo_longest_match [OF ok' j] False org name M' by simp
  show ?thesis
  proof (cases "?M = {}")
    case True
    with one two show ?thesis by simp
  next
    case False
    with one two have "?b \<in> ?M" "?b' \<in> ?M" "length ?b = length ?b'"
      by (auto intro: le_antisym)
    then show ?thesis
      by (auto simp: matchingSiblings_def intro: same_length_prefix_eq)
  qed
qed

theorem computeBaseRepos_order_independent_witness:
  "sorter_ok stable_sorter \<and> sorter_ok reversing_sorter \<and>
   mset (rev tiedSummaries) = mset tiedSummaries \<and>
   (2::nat) < length tiedSummaries \<and> (1::nat) < length (rev tiedSummaries) \<and>
   ProjectSummary.Name (rev tiedSummaries ! 1) = ProjectSummary.Name (tiedSummaries ! 2) \<and>
   ProjectSummary.Org (rev tiedSummaries ! 1) = ProjectSummary.Org (tiedSummaries ! 2) \<and>
   ProjectSummary.BaseRepo (computeBaseRepos reversing_sorter (rev tiedSummaries) ! 1) =
   ProjectSummary.BaseRepo (computeBaseRepos stable_sorter tiedSummaries ! 2)"
proof -
  have facts: "mset (rev tiedSummaries) = mset tiedSummaries"
    "(2::nat) < length tiedSummaries" "(1::nat) < length (rev tiedSummaries)"
    "ProjectSummary.Name (rev tiedSummaries ! 1) = ProjectSummary.Name (tiedSummaries ! 2)"
    "ProjectSummary.Org (rev tiedSummaries ! 1) = ProjectSummary.Org (tiedSummaries ! 2)"
    by (simp_all add: tiedSummaries_def)
  from computeBaseRepos_order_independent
    [OF stable_sorter_ok reversing_sorter_ok facts]
  show ?thesis
    using stable_sorter_ok reversing_sorter_ok facts by simp
qed

section \<open>Properties of the active task lists\<close>

lemma dom_addIndexEntries:
  "dom (addIndexEntries projectName dirName entries result) =
     dom result \<union> SessionEntry.SessionID ` set entries"
  by (induction entries arbitrary: result) auto

lemma dom_scanProjectDirs:
  "dom (scanProjectDirs fs projectDirs result) =
     dom result \<union>
     {sid. \<exists>dir \<in> set projectDirs. entry_IsDir dir \<and>
        (\<exists>index. readIndexFile fs (entry_Name dir) = Decoded index \<and>
           sid \<in> SessionEntry.SessionID ` set (Entries index))}"
proof (induction projectDirs arbitrary: result)
  case Nil
  show ?case by simp
next
  case (Cons dir projectDirs)
  show ?case
    by (cases "readIndexFile fs (entry_Name dir)")
       (auto simp: Cons.IH dom_addIndexEntries)
qed

lemma probeProjectDirs_None:
  "probeProjectDirs fs jsonlName projectDirs = None \<longleftrightarrow>
     (\<forall>dir \<in> set projectDirs. entry_IsDir dir \<longrightarrow> \<not> statInProject fs (entry_Name dir) jsonlName)"
  by (induction projectDirs) auto

lemma sessionUnknown_lookups:
  assumes "sessionUnknown fs sessionID"
  shows "buildSessionProjectMap fs sessionID = None"
    and "findProjectByJSONL fs sessionID = None"
proof -
  have "sessionID \<notin> dom (buildSessionProjectMap fs)"
    using assms
    by (auto simp: buildSessionProjectMap_def sessionUnknown_def inIndexOf_def
        dom_scanProjectDirs split: sum.splits)
  then show "buildSessionProjectMap fs sessionID = None"
    by blast
  show "findProjectByJSONL fs sessionID = None"
    using assms
    by (auto simp: findProjectByJSONL_def sessionUnknown_def probeProjectDirs_None
        split: sum.splits)
qed

lemma collectActiveLists_eq:
  "collectActiveLists indexer fs m entries activeLists =
     activeLists @
     map (\<lambda>e. activeTaskList indexer fs m (entry_Name e) (GetTaskCount fs (entry_Name e)))
       (filter (\<lambda>e. entry_IsDir e \<and> 0 < GetTaskCount fs (entry_Name e)) entries)"
  by (induction entries arbitrary: activeLists) (simp_all add: Let_def)

lemma activeTaskList_fields:
  "ActiveTaskList.SessionID (activeTaskList indexer fs m sessionID taskCount) = sessionID"
  "TaskCount (activeTaskList indexer fs m sessionID taskCount) = taskCount"
  "TaskDir (activeTaskList indexer fs m sessionID taskCount) =
     filepath_Join (tasksDir indexer) sessionID"
  by (simp_all add: activeTaskList_def withProject_def Let_def split: option.splits)

lemma activeTaskList_blank:
  assumes "m sessionID = None" and "findProjectByJSONL fs sessionID = None"
  shows "ProjectName (activeTaskList indexer fs m sessionID taskCount) = '''' \<and>
         ActiveTaskList.ProjectPath (activeTaskList indexer fs m sessionID taskCount) = '''' \<and>
         ActiveTaskList.Summary (activeTaskList indexer fs m sessionID taskCount) = '''' \<and>
         ActiveTaskList.FirstPrompt (activeTaskList indexer fs m sessionID taskCount) = ''''"
  using assms by (simp add: activeTaskList_def)

lemma GetTaskCount_positive_iff:
  "0 < GetTaskCount fs sessionID \<longleftrightarrow> sessionHasTaskFile fs sessionID"
  by (auto simp: GetTaskCount_def sessionHasTaskFile_def countTaskFiles_filter
      strings_HasSuffix_def filter_empty_conv split: sum.splits)

lemma example_sessionToProject:
  "buildSessionProjectMap exampleFS ''b'' =
     Some \<lparr> info_name = ''repoX'', info_path = ''-src-github-com-org1-repoX'',
            info_summary = ''a fix'', info_firstPrompt = ''fix it'' \<rparr>"
  "buildSessionProjectMap exampleFS ''w'' = None"
  "buildSessionProjectMap exampleFS ''z'' = None"
  by (simp_all add: buildSessionProjectMap_def exampleFS_def exampleSession_def
      extractProjectName_def)

lemma example_findProjectByJSONL:
  "findProjectByJSONL exampleFS ''w'' =
     Some \<lparr> info_name = ''y'', info_path = ''-tmp-y'', info_summary = '''',
            info_firstPrompt = '''' \<rparr>"
  "findProjectByJSONL exampleFS ''z'' = None"
  by (simp_all add: findProjectByJSONL_def exampleFS_def extractProjectName_def)

lemma example_GetTaskCount:
  "GetTaskCount exampleFS ''b'' = 2" "GetTaskCount exampleFS ''idle'' = 0"
  "GetTaskCount exampleFS ''w'' = 1" "GetTaskCount exampleFS ''z'' = 1"
  by (simp_all add: GetTaskCount_def exampleFS_def strings_HasSuffix_def suffix_to_prefix)

lemma example_ListActiveTaskLists:
  "ListActiveTaskLists exampleIndexer exampleFS =
     Inr [\<lparr> ActiveTaskList.SessionID = ''b'', TaskCount = 2,
             TaskDir = ''/home/u/.claude/tasks/b'', ProjectName = ''repoX'',
             ActiveTaskList.ProjectPath = ''-src-github-com-org1-repoX'',
             ActiveTaskList.Summary = ''a fix'', ActiveTaskList.FirstPrompt = ''fix it'' \<rparr>,
          \<lparr> ActiveTaskList.SessionID = ''w'', TaskCount = 1,
             TaskDir = ''/home/u/.claude/tasks/w'', ProjectName = ''y'',
             ActiveTaskList.ProjectPath = ''-tmp-y'',
             ActiveTaskList.Summary = '''', ActiveTaskList.FirstPrompt = '''' \<rparr>,
          \<lparr> ActiveTaskList.SessionID = ''z'', TaskCount = 1,
             TaskDir = ''/home/u/.claude/tasks/z'', ProjectName = '''',
             ActiveTaskList.ProjectPath = '''',
             ActiveTaskList.Summary = '''', ActiveTaskList.FirstPrompt = '''' \<rparr>]"
proof -
  have "readDirTasks exampleFS =
         Inr [DirEntry ''b'' True, DirEntry ''idle'' True, DirEntry ''notes.txt'' False,
              DirEntry ''w'' True, DirEntry ''z'' True]"
    by (simp add: exampleFS_def)
  then show ?thesis
    by (simp add: ListActiveTaskLists_def example_GetTaskCount activeTaskList_def
        withProject_def example_sessionToProject example_findProjectByJSONL
        filepath_Join_def exampleIndexer_def Let_def)
qed

lemma example_sessionUnknown: "sessionUnknown exampleFS ''z''"
  by (simp add: sessionUnknown_def inIndexOf_def exampleFS_def exampleSession_def)

text \<open>
  Claim C5. When the tasks directory can be listed, \<open>ListActiveTaskLists\<close> returns a
  list and no error. The list has one entry for each listed subdirectory whose own listing
  holds an entry ending in \<^verbatim>\<open>.json\<close>, in the order of the listing, and no entry for
  any other. Each entry's \<open>TaskCount\<close> is the session's task count and is at least 1.
  An entry of a session that no project knows, by index or by log file, has an empty
  \<open>ProjectName\<close>, \<open>ProjectPath\<close>, \<open>Summary\<close> and \<open>FirstPrompt\<close>.
\<close>

theorem ListActiveTaskLists_one_entry_per_session_with_tasks:
  assumes "readDirTasks fs = Inr entries"
  shows "\<exists>activeLists. ListActiveTaskLists indexer fs = Inr activeLists \<and>
     map ActiveTaskList.SessionID activeLists =
       map entry_Name
         (filter (\<lambda>e. entry_IsDir e \<and> sessionHasTaskFile fs (entry_Name e)) entries) \<and>
     (\<forall>active \<in> set activeLists.
        1 \<le> TaskCount active \<and>
        TaskCount active = GetTaskCount fs (ActiveTaskList.SessionID active) \<and>
        (sessionUnknown fs (ActiveTaskList.SessionID active) \<longrightarrow>
           ProjectName active = '''' \<and> ActiveTaskList.ProjectPath active = '''' \<and>
           ActiveTaskList.Summary active = '''' \<and> ActiveTaskList.FirstPrompt active = ''''))"
proof -
  let ?m = "buildSessionProjectMap fs"
  let ?mk = "\<lambda>e. activeTaskList indexer fs ?m (entry_Name e) (GetTaskCount fs (entry_Name e))"
  let ?sel = "filter (\<lambda>e. entry_IsDir e \<and> 0 < GetTaskCount fs (entry_Name e)) entries"
  have res: "ListActiveTaskLists indexer fs = Inr (map ?mk ?sel)"
    using assms by (simp add: ListActiveTaskLists_def collectActiveLists_eq)
  have ids: "map ActiveTaskList.SessionID (map ?mk ?sel) =
       map entry_Name
         (filter (\<lambda>e. entry_IsDir e \<and> sessionHasTaskFile fs (entry_Name e)) entries)"
    by (simp add: activeTaskList_fields GetTaskCount_positive_iff comp_def)
  have each: "1 \<le> TaskCount active \<and>
        TaskCount active = GetTaskCount fs (ActiveTaskList.SessionID active) \<and>
        (sessionUnknown fs (ActiveTaskList.SessionID active) \<longrightarrow>
           ProjectName active = '''' \<and> ActiveTaskList.ProjectPath active = '''' \<and>
           ActiveTaskList.Summary active = '''' \<and> ActiveTaskList.FirstPrompt active = '''')"
    if "active \<in> set (map ?mk ?sel)" for active
  proof -
    from that obtain e where e: "e \<in> set entries" "0 < GetTaskCount fs (entry_Name e)"
      and active: "active = ?mk e"
      by auto
    have "sessionUnknown fs (entry_Name e) \<Longrightarrow>
           ProjectName active = '''' \<and> ActiveTaskList.ProjectPath active = '''' \<and>
           ActiveTaskList.Summary active = '''' \<and> ActiveTaskList.FirstPrompt active = ''''"
      unfolding active
      by (intro activeTaskList_blank sessionUnknown_lookups)
    with e show ?thesis
      by (simp add: active activeTaskList_fields)
  qed
  from res ids each show ?thesis
    by blast
qed

theorem ListActiveTaskLists_one_entry_per_session_with_tasks_witness:
  "readDirTasks exampleFS =
     Inr [DirEntry ''b'' True, DirEntry ''idle'' True, DirEntry ''notes.txt'' False,
          DirEntry ''w'' True, DirEntry ''z'' True] \<and>
   (\<exists>activeLists. ListActiveTaskLists exampleIndexer exampleFS = Inr activeLists \<and>
      map ActiveTaskList.SessionID activeLists = [''b'', ''w'', ''z''] \<and>
      map TaskCount activeLists = [2, 1, 1] \<and>
      sessionUnknown exampleFS (ActiveTaskList.SessionID (activeLists ! 2)) \<and>
      ProjectName (activeLists ! 2) = '''' \<and>
      ActiveTaskList.ProjectPath (activeLists ! 2) = '''')"
  using ListActiveTaskLists_one_entry_per_session_with_tasks
    [of exampleFS "[DirEntry ''b'' True, DirEntry ''idle'' True, DirEntry ''notes.txt'' False,
          DirEntry ''w'' True, DirEntry ''z'' True]" exampleIndexer]
    example_ListActiveTaskLists example_sessionUnknown
  by (simp add: exampleFS_def)

section \<open>Properties of the project groups\<close>

lemma strings_Split_no_sep:
  "part \<in> set (strings_Split s sep) \<Longrightarrow> sep \<notin> set part"
proof (induction s arbitrary: part)
  case Nil
  then show ?case by simp
next
  case (Cons c cs)
  show ?case
  proof (cases "c = sep")
    case True
    with Cons show ?thesis by auto
  next
    case False
    with Cons show ?thesis
      by (cases "strings_Split cs sep") auto
  qed
qed

lemma findOrg_member: "findOrg parts = '''' \<or> findOrg parts \<in> set parts"
  by (induction parts rule: findOrg.induct) auto

lemma extractProjectInfo_org:
  assumes "extractProjectInfo path = (name, shortname, org)"
  shows "CHR ''/'' \<notin> set org"
proof -
  have "org = '''' \<or> org = findOrg (strings_Split path (CHR ''/''))"
    using assms by (auto simp: extractProjectInfo_def Let_def split: if_splits)
  then show ?thesis
    using findOrg_member [of "strings_Split path (CHR ''/'')"]
    by (auto dest: strings_Split_no_sep)
qed

lemma loadProject_org:
  assumes "loadProject srt fs dirName = Inr project"
  shows "CHR ''/'' \<notin> set (Project.Org project)"
  using assms
  by (auto simp: loadProject_def Let_def dest: extractProjectInfo_org
      split: indexFile.splits if_splits list.splits prod.splits)

lemma assignBaseRepo_org [simp]:
  "ProjectSummary.Org (assignBaseRepo orgRepos s) = ProjectSummary.Org s"
  by (simp add: assignBaseRepo_def)

lemma summarize_org [simp]: "ProjectSummary.Org (summarize p) = Project.Org p"
  by (simp add: summarize_def Let_def)

lemma ListProjectSummaries_org:
  assumes "sorter_ok srt" and "ListProjectSummaries srt fs = Inr summaries"
    and "s \<in> set summaries"
  shows "CHR ''/'' \<notin> set (ProjectSummary.Org s)"
proof -
  from assms(2) obtain projects where
    lp: "ListProjects srt fs = Inr projects" and
    sm: "summaries = computeBaseRepos srt (map summarize projects)"
    by (auto simp: ListProjectSummaries_def split: sum.splits)
  from assms(3) obtain p where "p \<in> set projects"
    and "ProjectSummary.Org s = Project.Org p"
    unfolding sm by (auto simp: computeBaseRepos_def Let_def)
  moreover from this(1) obtain dirName where "loadProject srt fs dirName = Inr p"
    using ListProjects_member [OF assms(1) lp] by blast
  ultimately show ?thesis
    using loadProject_org by simp
qed

lemma key_split_unique:
  assumes "CHR ''/'' \<notin> set a" and "CHR ''/'' \<notin> set a'"
    and "a @ ''/'' @ b = a' @ ''/'' @ b'"
  shows "a = a' \<and> b = b'"
  using assms
proof (induction a arbitrary: a')
  case Nil
  then show ?case by (cases a') auto
next
  case (Cons x xs)
  then show ?case by (cases a') auto
qed

lemma update_split:
  assumes "map_of al k = Some v"
  shows "\<exists>pre post. al = pre @ (k, v) # post \<and> k \<notin> fst ` set pre \<and>
           AList.update k v' al = pre @ (k, v') # post"
  using assms
proof (induction al)
  case Nil
  then show ?case by simp
next
  case (Cons a al)
  show ?case
  proof (cases "fst a = k")
    case True
    with Cons.prems have "a = (k, v)"
      by (cases a) auto
    then have "a # al = [] @ (k, v) # al \<and> k \<notin> fst ` set [] \<and>
         AList.update k v' (a # al) = [] @ (k, v') # al"
      by simp
    then show ?thesis by blast
  next
    case False
    with Cons.prems have "map_of al k = Some v"
      by (cases a) auto
    from Cons.IH [OF this] obtain pre post where
      "al = pre @ (k, v) # post" "k \<notin> fst ` set pre"
      "AList.update k v' al = pre @ (k, v') # post"
      by blast
    with False have "a # al = (a # pre) @ (k, v) # post \<and> k \<notin> fst ` set (a # pre) \<and>
         AList.update k v' (a # al) = (a # pre) @ (k, v') # post"
      by (cases a) auto
    then show ?thesis by blast
  qed
qed

lemma sum_list_map_perm:
  fixes f :: "'a \<Rightarrow> 'b::comm_monoid_add"
  assumes "mset xs = mset ys"
  shows "sum_list (map f xs) = sum_list (map f ys)"
proof -
  have "sum_mset (mset (map f xs)) = sum_mset (mset (map f ys))"
    using assms by simp
  then show ?thesis
    by (simp only: sum_mset_sum_list)
qed

lemma groupSound_new:
  "groupSound (summaryKey s)
     \<lparr> ProjectGroup.BaseRepo = ProjectSummary.BaseRepo s,
       ProjectGroup.Org = ProjectSummary.Org s,
       Projects = [s],
       TotalSessions = ProjectSummary.SessionCount s,
       ProjectGroup.LastModified = ProjectSummary.LastModified s \<rparr>"
  by (simp add: groupSound_def)

lemma groupSound_add:
  assumes "groupSound key g" and "summaryKey s = key"
  shows "groupSound key
     (g \<lparr> Projects := Projects g @ [s],
          TotalSessions := TotalSessions g + ProjectSummary.SessionCount s,
          ProjectGroup.LastModified :=
            (if ProjectGroup.LastModified g < ProjectSummary.LastModified s
             then ProjectSummary.LastModified s
             else ProjectGroup.LastModified g) \<rparr>)"
proof -
  let ?A = "ProjectSummary.LastModified ` set (Projects g)"
  from assms(1) have ne: "Projects g \<noteq> []"
    and lm: "ProjectGroup.LastModified g = Max ?A"
    by (simp_all add: groupSound_def)
  from ne have "?A \<noteq> {}" "finite ?A" by simp_all
  then have "Max (insert (ProjectSummary.LastModified s) ?A) =
      max (ProjectSummary.LastModified s) (Max ?A)"
    by (rule Max_insert [rotated])
  then have "Max (ProjectSummary.LastModified ` set (Projects g @ [s])) =
      (if ProjectGroup.LastModified g < ProjectSummary.LastModified s
       then ProjectSummary.LastModified s else ProjectGroup.LastModified g)"
    by (simp add: lm max_def)
  with assms ne show ?thesis
    by (simp add: groupSound_def)
qed

lemma addToGroups_cases:
  obtains
    (new) "map_of groupMap (summaryKey s) = None"
      "addToGroups groupMap s =
         groupMap @
           [(summaryKey s,
             \<lparr> ProjectGroup.BaseRepo = ProjectSummary.BaseRepo s,
               ProjectGroup.Org = ProjectSummary.Org s,
               Projects = [s],
               TotalSessions = ProjectSummary.SessionCount s,
               ProjectGroup.LastModified = ProjectSummary.LastModified s \<rparr>)]"
  | (old) pre g post where
      "groupMap = pre @ (summaryKey s, g) # post"
      "summaryKey s \<notin> fst ` set pre"
      "addToGroups groupMap s =
         pre @ (summaryKey s,
           g \<lparr> Projects := Projects g @ [s],
                TotalSessions := TotalSessions g + ProjectSummary.SessionCount s,
                ProjectGroup.LastModified :=
                  (if ProjectGroup.LastModified g < ProjectSummary.LastModified s
                   then ProjectSummary.LastModified s
                   else ProjectGroup.LastModified g) \<rparr>) # post"
proof (cases "map_of groupMap (summaryKey s)")
  case None
  then show ?thesis
    by (intro new) (simp_all add: addToGroups_def summaryKey_def)
next
  case (Some g)
  from update_split [OF Some] obtain pre post where
    "groupMap = pre @ (summaryKey s, g) # post" "summaryKey s \<notin> fst ` set pre"
    "AList.update (summaryKey s)
       (g \<lparr> Projects := Projects g @ [s],
            TotalSessions := TotalSessions g + ProjectSummary.SessionCount s,
            ProjectGroup.LastModified :=
              (if ProjectGroup.LastModified g < ProjectSummary.LastModified s
               then ProjectSummary.LastModified s
               else ProjectGroup.LastModified g) \<rparr>) groupMap =
     pre @ (summaryKey s,
       g \<lparr> Projects := Projects g @ [s],
            TotalSessions := TotalSessions g + ProjectSummary.SessionCount s,
            ProjectGroup.LastModified :=
              (if ProjectGroup.LastModified g < ProjectSummary.LastModified s
               then ProjectSummary.LastModified s
               else ProjectGroup.LastModified g) \<rparr>) # post"
    by blast
  with Some show ?thesis
    by (intro old [of pre g post]) (simp_all add: addToGroups_def summaryKey_def Let_def)
qed

lemma addToGroups_sound:
  assumes "groupMapSound groupMap"
  shows "groupMapSound (addToGroups groupMap s)"
proof (cases groupMap s rule: addToGroups_cases)
  case new
  from new(1) have "summaryKey s \<notin> fst ` set groupMap"
    by (simp add: map_of_eq_None_iff)
  with assms show ?thesis
    unfolding new(2) groupMapSound_def by (auto simp: groupSound_new)
next
  case (old pre g post)
  from assms have "groupSound (summaryKey s) g"
    unfolding old(1) groupMapSound_def by simp
  then have "groupSound (summaryKey s)
     (g \<lparr> Projects := Projects g @ [s],
          TotalSessions := TotalSessions g + ProjectSummary.SessionCount s,
          ProjectGroup.LastModified :=
            (if ProjectGroup.LastModified g < ProjectSummary.LastModified s
             then ProjectSummary.LastModified s
             else ProjectGroup.LastModified g) \<rparr>)"
    by (rule groupSound_add) simp
  with assms show ?thesis
    unfolding old(3) unfolding old(1) groupMapSound_def by auto
qed

lemma addToGroups_memberCount:
  "memberCount (addToGroups groupMap s) = memberCount groupMap + {#s#}"
proof (cases groupMap s rule: addToGroups_cases)
  case new
  show ?thesis unfolding new(2) by (simp add: memberCount_def)
next
  case (old pre g post)
  show ?thesis unfolding old(3) unfolding old(1) by (simp add: memberCount_def)
qed

lemma foldl_addToGroups_sound:
  "groupMapSound groupMap \<Longrightarrow> groupMapSound (foldl addToGroups groupMap summaries)"
  by (induction summaries arbitrary: groupMap) (simp_all add: addToGroups_sound)

lemma foldl_addToGroups_memberCount:
  "memberCount (foldl addToGroups groupMap summaries) = memberCount groupMap + mset summaries"
  by (induction summaries arbitrary: groupMap) (simp_all add: addToGroups_memberCount)

lemma grouped_sound: "groupMapSound (foldl addToGroups [] summaries)"
  by (rule foldl_addToGroups_sound) (simp add: groupMapSound_def)

lemma grouped_memberCount: "memberCount (foldl addToGroups [] summaries) = mset summaries"
  by (simp add: foldl_addToGroups_memberCount) (simp add: memberCount_def)


lemma mset_map_nth_perm:
  assumes "mset p = mset [0..<length xs]"
  shows "mset (map ((!) xs) p) = mset xs"
proof -
  from assms have "image_mset ((!) xs) (mset p) = image_mset ((!) xs) (mset [0..<length xs])"
    by simp
  then have "mset (map ((!) xs) p) = mset (map ((!) xs) [0..<length xs])"
    by simp
  then show ?thesis
    by (simp add: map_nth)
qed

lemma mset_rangeValues:
  assumes "mapOrder_ok ord"
  shows "mset (rangeValues ord m) = mset (map snd m)"
proof -
  have "mset (ord (length m)) = mset [0..<length (map snd m)]"
    using assms by (simp add: mapOrder_ok_def)
  then show ?thesis
    unfolding rangeValues_def by (rule mset_map_nth_perm)
qed

lemma insertionOrder_ok: "mapOrder_ok insertionOrder"
  by (simp add: mapOrder_ok_def insertionOrder_def)

lemma sortGroupProjects_fields [simp]:
  "ProjectGroup.Org (sortGroupProjects srt g) = ProjectGroup.Org g"
  "ProjectGroup.BaseRepo (sortGroupProjects srt g) = ProjectGroup.BaseRepo g"
  "TotalSessions (sortGroupProjects srt g) = TotalSessions g"
  "ProjectGroup.LastModified (sortGroupProjects srt g) = ProjectGroup.LastModified g"
  "Projects (sortGroupProjects srt g) = sort_Slice srt ProjectSummary.LastModified (Projects g)"
  by (simp_all add: sortGroupProjects_def)

lemma summaryKey_unique:
  assumes "summaryKey s = summaryKey t"
    and "CHR ''/'' \<notin> set (ProjectSummary.Org s)" and "CHR ''/'' \<notin> set (ProjectSummary.Org t)"
  shows "ProjectSummary.Org s = ProjectSummary.Org t \<and>
         ProjectSummary.BaseRepo s = ProjectSummary.BaseRepo t"
  using key_split_unique [OF assms(2,3)] assms(1) by (simp add: summaryKey_def)

lemma groupConsistent_sorted:
  assumes ok: "sorter_ok srt" and sound: "groupSound key g"
    and orgs: "\<forall>s \<in> set (Projects g). CHR ''/'' \<notin> set (ProjectSummary.Org s)"
  shows "groupConsistent (sortGroupProjects srt g)"
proof -
  let ?sorted = "sort_Slice srt ProjectSummary.LastModified (Projects g)"
  from sound have ne: "Projects g \<noteq> []"
    and keys: "\<forall>s \<in> set (Projects g). summaryKey s = key"
    and org: "ProjectGroup.Org g = ProjectSummary.Org (hd (Projects g))"
    and base: "ProjectGroup.BaseRepo g = ProjectSummary.BaseRepo (hd (Projects g))"
    and total: "TotalSessions g = sum_list (map ProjectSummary.SessionCount (Projects g))"
    and last: "ProjectGroup.LastModified g = Max (ProjectSummary.LastModified ` set (Projects g))"
    by (simp_all add: groupSound_def)
  have set_eq: "set ?sorted = set (Projects g)"
    using ok by (rule set_sort_Slice)
  have mset_eq: "mset ?sorted = mset (Projects g)"
    using ok by (rule mset_sort_Slice)
  from ne have hd_in: "hd (Projects g) \<in> set (Projects g)"
    by simp
  have members: "ProjectSummary.Org s = ProjectGroup.Org g \<and>
      ProjectSummary.BaseRepo s = ProjectGroup.BaseRepo g" if "s \<in> set (Projects g)" for s
  proof -
    from that keys hd_in have "summaryKey s = summaryKey (hd (Projects g))"
      by simp
    moreover from that orgs have "CHR ''/'' \<notin> set (ProjectSummary.Org s)"
      by simp
    moreover from hd_in orgs have "CHR ''/'' \<notin> set (ProjectSummary.Org (hd (Projects g)))"
      by simp
    ultimately have "ProjectSummary.Org s = ProjectSummary.Org (hd (Projects g)) \<and>
        ProjectSummary.BaseRepo s = ProjectSummary.BaseRepo (hd (Projects g))"
      by (rule summaryKey_unique)
    then show ?thesis
      by (simp add: org base)
  qed
  have "sum_list (map ProjectSummary.SessionCount ?sorted) =
      sum_list (map ProjectSummary.SessionCount (Projects g))"
    using mset_eq by (rule sum_list_map_perm)
  moreover have "sorted_wrt (\<lambda>a b. ProjectSummary.LastModified b \<le> ProjectSummary.LastModified a) ?sorted"
    using ok by (rule sorted_sort_Slice)
  moreover have "?sorted \<noteq> []"
    using ok ne by (simp add: sort_Slice_Nil_iff)
  ultimately show ?thesis
    using members total last by (simp add: groupConsistent_def set_eq)
qed

lemma distinct_map_comp:
  "distinct (map (h \<circ> f) xs) \<Longrightarrow> distinct (map f xs)"
  by (induction xs) auto

lemma groupMap_distinct_pairs:
  assumes "groupMapSound groupMap"
  shows "distinct (map (\<lambda>kg. (ProjectGroup.Org (snd kg), ProjectGroup.BaseRepo (snd kg))) groupMap)"
proof -
  have "fst kg = (\<lambda>(org, base). org @ ''/'' @ base)
          (ProjectGroup.Org (snd kg), ProjectGroup.BaseRepo (snd kg))"
    if "kg \<in> set groupMap" for kg
  proof -
    obtain key g where kg: "kg = (key, g)" by (cases kg)
    with that assms have "groupSound key g"
      by (auto simp: groupMapSound_def)
    then have "summaryKey (hd (Projects g)) = key"
      "ProjectGroup.Org g = ProjectSummary.Org (hd (Projects g))"
      "ProjectGroup.BaseRepo g = ProjectSummary.BaseRepo (hd (Projects g))"
      by (simp_all add: groupSound_def)
    then show ?thesis
      by (simp add: kg summaryKey_def)
  qed
  then have eq: "map fst groupMap =
      map ((\<lambda>(org, base). org @ ''/'' @ base) \<circ>
           (\<lambda>kg. (ProjectGroup.Org (snd kg), ProjectGroup.BaseRepo (snd kg)))) groupMap"
    by simp
  from assms have "distinct (map fst groupMap)"
    by (simp add: groupMapSound_def)
  then have "distinct (map ((\<lambda>(org, base). org @ ''/'' @ base) \<circ>
           (\<lambda>kg. (ProjectGroup.Org (snd kg), ProjectGroup.BaseRepo (snd kg)))) groupMap)"
    unfolding eq .
  then show ?thesis
    by (rule distinct_map_comp)
qed

lemma example_ListProjectSummaries:
  "ListProjectSummaries stable_sorter exampleFS = Inr exampleListedSummaries"
  by (simp add: ListProjectSummaries_def example_ListProjects exampleListedSummaries_def
      computeBaseRepos_def assignBaseRepo_def sortOrgRepos_def lookupRepos_def
      summarize_def exampleProjectX_def exampleProjectY_def exampleProjectW_def
      exampleSession_def sort_Slice_def stable_sorter_def strings_HasPrefix_def Let_def)

lemma example_groupMap:
  "foldl addToGroups [] exampleListedSummaries =
     [(''/y'', \<lparr> ProjectGroup.BaseRepo = ''y'', ProjectGroup.Org = '''',
        Projects = [exampleListedSummaries ! 0],
        TotalSessions = 1, ProjectGroup.LastModified = 30 \<rparr>),
      (''org1/repoX'', \<lparr> ProjectGroup.BaseRepo = ''repoX'', ProjectGroup.Org = ''org1'',
        Projects = [exampleListedSummaries ! 1, exampleListedSummaries ! 2],
        TotalSessions = 3, ProjectGroup.LastModified = 25 \<rparr>)]"
  by (simp add: exampleListedSummaries_def addToGroups_def summarize_def
      exampleProjectX_def exampleProjectY_def exampleProjectW_def exampleSession_def Let_def)

lemma example_ListProjectGroups:
  "ListProjectGroups stable_sorter insertionOrder exampleFS = Inr exampleGroups"
  unfolding ListProjectGroups_def example_ListProjectSummaries
  by (simp add: example_groupMap Let_def rangeValues_def insertionOrder_def
      sortGroupProjects_def sort_Slice_def stable_sorter_def exampleGroups_def)
     (simp add: exampleListedSummaries_def summarize_def
      exampleProjectX_def exampleProjectY_def exampleProjectW_def exampleSession_def Let_def)

text \<open>
  Claim C6. With a sort that keeps the library's guarantee and any order of visiting the
  map, \<open>ListProjectGroups\<close> fails only when \<open>ListProjectSummaries\<close> fails.
  Otherwise it returns groups such that: the members of all groups together are the
  summaries, each as often as it is listed, so every summary is in one group; no two
  groups have the same organization and base repository, and every member has those of its
  group; a group's \<open>TotalSessions\<close> is the sum of its members' \<open>SessionCount\<close>
  and its \<open>LastModified\<close> the maximum of its members'; the members of a group, and the
  groups, are sorted non-increasing by \<open>LastModified\<close>.
\<close>

theorem ListProjectGroups_partition:
  assumes ok: "sorter_ok srt" and ord: "mapOrder_ok ord"
  shows "(\<forall>err. ListProjectSummaries srt fs = Inl err \<longrightarrow>
            ListProjectGroups srt ord fs = Inl err) \<and>
         (\<forall>summaries. ListProjectSummaries srt fs = Inr summaries \<longrightarrow>
            (\<exists>groups. ListProjectGroups srt ord fs = Inr groups \<and>
               mset (concat (map Projects groups)) = mset summaries \<and>
               distinct (map (\<lambda>g. (ProjectGroup.Org g, ProjectGroup.BaseRepo g)) groups) \<and>
               (\<forall>g \<in> set groups. groupConsistent g) \<and>
               sorted_wrt (\<lambda>g h. ProjectGroup.LastModified h \<le> ProjectGroup.LastModified g)
                 groups))"
proof (intro conjI allI impI)
  fix err assume "ListProjectSummaries srt fs = Inl err"
  then show "ListProjectGroups srt ord fs = Inl err"
    by (simp add: ListProjectGroups_def)
next
  fix summaries assume sums: "ListProjectSummaries srt fs = Inr summaries"
  let ?groupMap = "foldl addToGroups [] summaries"
  let ?unsorted = "map (sortGroupProjects srt) (rangeValues ord ?groupMap)"
  let ?groups = "sort_Slice srt ProjectGroup.LastModified ?unsorted"
  have res: "ListProjectGroups srt ord fs = Inr ?groups"
    using sums by (simp add: ListProjectGroups_def Let_def)
  have sound: "groupMapSound ?groupMap"
    by (rule grouped_sound)
  have count: "memberCount ?groupMap = mset summaries"
    by (rule grouped_memberCount)
  have perm: "mset ?groups = image_mset (sortGroupProjects srt) (mset (map snd ?groupMap))"
    using ok ord by (simp add: mset_sort_Slice mset_rangeValues)

  have "mset (concat (map Projects ?groups)) = (\<Sum>g\<leftarrow>?groups. mset (Projects g))"
    by (simp add: mset_concat comp_def)
  also have "\<dots> = (\<Sum>g\<leftarrow>map (sortGroupProjects srt) (map snd ?groupMap). mset (Projects g))"
    by (rule sum_list_map_perm) (simp only: perm mset_map)
  also have "\<dots> = (\<Sum>kg\<leftarrow>?groupMap. mset (Projects (snd kg)))"
    using ok by (simp add: comp_def mset_sort_Slice)
  also have "\<dots> = memberCount ?groupMap"
    by (simp add: memberCount_def mset_concat comp_def)
  finally have partition: "mset (concat (map Projects ?groups)) = mset summaries"
    using count by simp

  have "mset (map (\<lambda>g. (ProjectGroup.Org g, ProjectGroup.BaseRepo g)) ?groups) =
      mset (map (\<lambda>kg. (ProjectGroup.Org (snd kg), ProjectGroup.BaseRepo (snd kg))) ?groupMap)"
    by (simp add: perm multiset.map_comp comp_def)
  from mset_eq_imp_distinct_iff [OF this] groupMap_distinct_pairs [OF sound]
  have keys: "distinct (map (\<lambda>g. (ProjectGroup.Org g, ProjectGroup.BaseRepo g)) ?groups)"
    by simp

  have consistent: "groupConsistent g" if "g \<in> set ?groups" for g
  proof -
    from that have "g \<in># mset ?groups" by simp
    then obtain key g0 where in_map: "(key, g0) \<in> set ?groupMap"
      and g: "g = sortGroupProjects srt g0"
      unfolding perm by auto
    from in_map sound have g0: "groupSound key g0"
      by (auto simp: groupMapSound_def)
    have "set (Projects g0) \<subseteq> set_mset (memberCount ?groupMap)"
      using in_map by (auto simp: memberCount_def)
    then have "set (Projects g0) \<subseteq> set summaries"
      by (simp add: count)
    then have "\<forall>s \<in> set (Projects g0). CHR ''/'' \<notin> set (ProjectSummary.Org s)"
      using ListProjectSummaries_org [OF ok sums] by blast
    with ok g0 show ?thesis
      unfolding g by (rule groupConsistent_sorted)
  qed

  have "sorted_wrt (\<lambda>g h. ProjectGroup.LastModified h \<le> ProjectGroup.LastModified g) ?groups"
    using ok by (rule sorted_sort_Slice)
  with res partition keys consistent
  show "\<exists>groups. ListProjectGroups srt ord fs = Inr groups \<and>
               mset (concat (map Projects groups)) = mset summaries \<and>
               distinct (map (\<lambda>g. (ProjectGroup.Org g, ProjectGroup.BaseRepo g)) groups) \<and>
               (\<forall>g \<in> set groups. groupConsistent g) \<and>
               sorted_wrt (\<lambda>g h. ProjectGroup.LastModified h \<le> ProjectGroup.LastModified g)
                 groups"
    by blast
qed

theorem ListProjectGroups_partition_witness:
  "sorter_ok stable_sorter \<and> mapOrder_ok insertionOrder \<and>
   ListProjectSummaries stable_sorter exampleFS = Inr exampleListedSummaries \<and>
   ListProjectGroups stable_sorter insertionOrder exampleFS = Inr exampleGroups \<and>
   mset (concat (map Projects exampleGroups)) = mset exampleListedSummaries \<and>
   distinct (map (\<lambda>g. (ProjectGroup.Org g, ProjectGroup.BaseRepo g)) exampleGroups) \<and>
   groupConsistent (exampleGroups ! 0) \<and> groupConsistent (exampleGroups ! 1) \<and>
   map TotalSessions exampleGroups = [1, 3] \<and>
   map ProjectGroup.LastModified exampleGroups = [30, 25] \<and>
   ListProjectSummaries stable_sorter unreadableFS = Inl (PathError EACCES) \<and>
   ListProjectGroups stable_sorter insertionOrder unreadableFS = Inl (PathError EACCES)"
proof -
  have unreadable: "ListProjectSummaries stable_sorter unreadableFS = Inl (PathError EACCES)"
    by (simp add: ListProjectSummaries_def ListProjects_def unreadableFS_def)
  with ListProjectGroups_partition [OF stable_sorter_ok insertionOrder_ok, of unreadableFS]
  have "ListProjectGroups stable_sorter insertionOrder unreadableFS = Inl (PathError EACCES)"
    by simp
  note failing = unreadable this
  from ListProjectGroups_partition [OF stable_sorter_ok insertionOrder_ok, of exampleFS]
    example_ListProjectSummaries example_ListProjectGroups
  have "mset (concat (map Projects exampleGroups)) = mset exampleListedSummaries \<and>
     distinct (map (\<lambda>g. (ProjectGroup.Org g, ProjectGroup.BaseRepo g)) exampleGroups) \<and>
     (\<forall>g \<in> set exampleGroups. groupConsistent g)"
    by simp
  moreover have "exampleGroups ! 0 \<in> set exampleGroups" "exampleGroups ! 1 \<in> set exampleGroups"
    by (simp_all add: exampleGroups_def)
  moreover have "map TotalSessions exampleGroups = [1, 3]"
    "map ProjectGroup.LastModified exampleGroups = [30, 25]"
    by (simp_all add: exampleGroups_def)
  ultimately show ?thesis
    using stable_sorter_ok insertionOrder_ok example_ListProjectSummaries
      example_ListProjectGroups failing
    by blast
qed

section \<open>Properties of the path derivation\<close>

lemma extractProjectInfo_github:
  "extractProjectInfo ''/home/u/src/github.com/org1/repoX'' = (''repoX'', ''repoX'', ''org1'')"
  by (simp add: extractProjectInfo_def filepath_Base_def lastElement_def
      stripTrailingSeparators_def Let_def)

lemma extractProjectInfo_empty: "extractProjectInfo '''' = ('''', '''', '''')"
  by (simp add: extractProjectInfo_def filepath_Base_def)

text \<open>
  Claim C7. The claim has the root path give three empty strings, like the empty path.
  \<open>extractProjectInfo\<close> tests the base name against the empty string and \<^verbatim>\<open>.\<close>, but
  \<^verbatim>\<open>filepath.Base\<close> of the root is the separator itself: at \<^verbatim>\<open>/\<close> the function
  returns the separator as name and as short name, and the caller's test for an empty name
  does not fire.
\<close>

theorem extractProjectInfo_root: "extractProjectInfo ''/'' = (''/'', ''/'', '''')"
  by (simp add: extractProjectInfo_def filepath_Base_def lastElement_def
      stripTrailingSeparators_def Let_def)

end
